theory Spec2Isabelle
  imports Complex_Main "HOL-Library.Word"
begin

section \<open>Values of the host language\<close>

text \<open>
  A JavaScript string is a sequence of 16-bit code units; a \<open>Uint8Array\<close> or
  \<open>ArrayBuffer\<close> is a sequence of bytes. String literals of the source are
  written \<open>js ''...''\<close>.
\<close>

type_synonym jsstring = "16 word list"
type_synonym bytes = "8 word list"

definition js :: "string \<Rightarrow> jsstring" where
  "js s = map (\<lambda>c. of_nat (of_char c)) s"

text \<open>
  What a \<open>throw\<close> carries: a \<open>DOMException\<close> of the platform (by name), or an
  \<open>Error\<close> object made by \<open>new Error(message)\<close> (also \<open>TypeError\<close>,
  \<open>SyntaxError\<close>: the source reads only \<open>message\<close>).
\<close>

datatype js_exn = DOMException string | JsError jsstring

section \<open>\<open>window.btoa\<close> and \<open>window.atob\<close>\<close>

text \<open>
  \<open>btoa\<close> is the base64 encoding of RFC 4648 with padding; it throws
  \<open>InvalidCharacterError\<close> on a code unit above 255. \<open>atob\<close> is the
  forgiving-base64 decode of the WHATWG Infra standard: ASCII whitespace is removed, one
  or two trailing \<open>=\<close> are removed when the length is a multiple of four, a length
  of 1 modulo 4 or a character outside the alphabet fails, and the unused low bits of a
  last partial group are dropped unchecked.
\<close>

definition b64_char :: "nat \<Rightarrow> 16 word" where
  "b64_char n = of_nat (if n < 26 then 65 + n else if n < 52 then 71 + n
     else if n < 62 then n - 4 else if n = 62 then 43 else 47)"

definition b64_index :: "16 word \<Rightarrow> nat option" where
  "b64_index c = (let u = unat c in
     if 65 \<le> u \<and> u \<le> 90 then Some (u - 65)
     else if 97 \<le> u \<and> u \<le> 122 then Some (u - 71)
     else if 48 \<le> u \<and> u \<le> 57 then Some (u + 4)
     else if u = 43 then Some 62
     else if u = 47 then Some 63
     else None)"

fun b64_encode :: "nat list \<Rightarrow> jsstring" where
  "b64_encode (a # b # c # rest) =
     [b64_char (a div 4), b64_char ((a mod 4) * 16 + b div 16),
      b64_char ((b mod 16) * 4 + c div 64), b64_char (c mod 64)] @ b64_encode rest"
| "b64_encode [a, b] =
     [b64_char (a div 4), b64_char ((a mod 4) * 16 + b div 16), b64_char ((b mod 16) * 4), 61]"
| "b64_encode [a] = [b64_char (a div 4), b64_char ((a mod 4) * 16), 61, 61]"
| "b64_encode [] = []"

definition btoa :: "jsstring \<Rightarrow> js_exn + jsstring" where
  "btoa s = (if list_ex (\<lambda>c. 255 < unat c) s then Inl (DOMException ''InvalidCharacterError'')
     else Inr (b64_encode (map unat s)))"

definition ascii_whitespace :: "16 word \<Rightarrow> bool" where
  "ascii_whitespace c \<longleftrightarrow> c = 9 \<or> c = 10 \<or> c = 12 \<or> c = 13 \<or> c = 32"

definition strip_padding :: "jsstring \<Rightarrow> jsstring" where
  "strip_padding d =
     (if length d mod 4 = 0 \<and> d \<noteq> [] \<and> last d = 61
      then (if last (butlast d) = 61 then butlast (butlast d) else butlast d)
      else d)"

fun b64_decode :: "nat list \<Rightarrow> nat list" where
  "b64_decode (p # q # r # s # rest) =
     [p * 4 + q div 16, (q mod 16) * 16 + r div 4, (r mod 4) * 64 + s] @ b64_decode rest"
| "b64_decode [p, q, r] = [p * 4 + q div 16, (q mod 16) * 16 + r div 4]"
| "b64_decode [p, q] = [p * 4 + q div 16]"
| "b64_decode [p] = []"
| "b64_decode [] = []"

definition forgiving_base64_decode :: "jsstring \<Rightarrow> nat list option" where
  "forgiving_base64_decode s =
     (let d = strip_padding (filter (\<lambda>c. \<not> ascii_whitespace c) s)
      in if length d mod 4 = 1 then None
         else map_option b64_decode (those (map b64_index d)))"

definition atob :: "jsstring \<Rightarrow> js_exn + jsstring" where
  "atob s = (case forgiving_base64_decode s of
       None \<Rightarrow> Inl (DOMException ''InvalidCharacterError'')
     | Some bs \<Rightarrow> Inr (map of_nat bs))"


section \<open>\<open>TextEncoder\<close> and \<open>TextDecoder\<close>\<close>

text \<open>
  \<open>new TextEncoder().encode(s)\<close> converts the string to scalar values (an unpaired
  surrogate becomes U+FFFD) and writes them in UTF-8. \<open>new TextDecoder().decode(b)\<close>
  is the UTF-8 decoder of the WHATWG Encoding standard with its defaults: not fatal (a
  malformed sequence becomes U+FFFD, nothing is thrown) and \<open>ignoreBOM\<close> false (a leading
  U+FEFF is dropped from the output). \<open>utf8_decoder\<close> is the standard's state machine:
  code point, bytes seen, bytes needed, lower and upper boundary.
\<close>

definition is_high_surrogate :: "16 word \<Rightarrow> bool" where
  "is_high_surrogate c \<longleftrightarrow> 0xD800 \<le> unat c \<and> unat c \<le> 0xDBFF"

definition is_low_surrogate :: "16 word \<Rightarrow> bool" where
  "is_low_surrogate c \<longleftrightarrow> 0xDC00 \<le> unat c \<and> unat c \<le> 0xDFFF"

fun to_scalar_values :: "jsstring \<Rightarrow> nat list" where
  "to_scalar_values [] = []"
| "to_scalar_values (c # rest) =
     (if is_high_surrogate c then
        (case rest of
           [] \<Rightarrow> [0xFFFD]
         | d # rest' \<Rightarrow>
             if is_low_surrogate d
             then (0x10000 + (unat c - 0xD800) * 0x400 + (unat d - 0xDC00)) # to_scalar_values rest'
             else 0xFFFD # to_scalar_values rest)
      else if is_low_surrogate c then 0xFFFD # to_scalar_values rest
      else unat c # to_scalar_values rest)"

definition utf8_encode_cp :: "nat \<Rightarrow> nat list" where
  "utf8_encode_cp cp =
     (if cp < 0x80 then [cp]
      else if cp < 0x800 then [0xC0 + cp div 64, 0x80 + cp mod 64]
      else if cp < 0x10000 then [0xE0 + cp div 4096, 0x80 + (cp div 64) mod 64, 0x80 + cp mod 64]
      else [0xF0 + cp div 262144, 0x80 + (cp div 4096) mod 64, 0x80 + (cp div 64) mod 64,
            0x80 + cp mod 64])"

definition TextEncoder_encode :: "jsstring \<Rightarrow> bytes" where
  "TextEncoder_encode s = map of_nat (concat (map utf8_encode_cp (to_scalar_values s)))"

fun utf8_decoder :: "nat \<Rightarrow> nat \<Rightarrow> nat \<Rightarrow> nat \<Rightarrow> nat \<Rightarrow> nat list \<Rightarrow> nat list" where
  "utf8_decoder cp seen needed lo hi [] = (if needed \<noteq> 0 then [0xFFFD] else [])"
| "utf8_decoder cp seen needed lo hi (b # bs) =
     (if needed = 0 then
        (if b \<le> 0x7F then b # utf8_decoder 0 0 0 0x80 0xBF bs
         else if 0xC2 \<le> b \<and> b \<le> 0xDF then utf8_decoder (b mod 32) 0 1 0x80 0xBF bs
         else if 0xE0 \<le> b \<and> b \<le> 0xEF then
           utf8_decoder (b mod 16) 0 2 (if b = 0xE0 then 0xA0 else 0x80)
             (if b = 0xED then 0x9F else 0xBF) bs
         else if 0xF0 \<le> b \<and> b \<le> 0xF4 then
           utf8_decoder (b mod 8) 0 3 (if b = 0xF0 then 0x90 else 0x80)
             (if b = 0xF4 then 0x8F else 0xBF) bs
         else 0xFFFD # utf8_decoder 0 0 0 0x80 0xBF bs)
      else if b < lo \<or> hi < b then 0xFFFD # utf8_decoder 0 0 0 0x80 0xBF (b # bs)
      else if seen + 1 \<noteq> needed then utf8_decoder (cp * 64 + b mod 64) (seen + 1) needed 0x80 0xBF bs
      else (cp * 64 + b mod 64) # utf8_decoder 0 0 0 0x80 0xBF bs)"

definition utf16_encode_cp :: "nat \<Rightarrow> jsstring" where
  "utf16_encode_cp cp =
     (if cp < 0x10000 then [of_nat cp]
      else [of_nat (0xD800 + (cp - 0x10000) div 0x400), of_nat (0xDC00 + (cp - 0x10000) mod 0x400)])"

definition strip_bom :: "nat list \<Rightarrow> nat list" where
  "strip_bom cps = (case cps of [] \<Rightarrow> [] | c # rest \<Rightarrow> if c = 0xFEFF then rest else cps)"

definition TextDecoder_decode :: "bytes \<Rightarrow> jsstring" where
  "TextDecoder_decode bs =
     concat (map utf16_encode_cp (strip_bom (utf8_decoder 0 0 0 0x80 0xBF (map unat bs))))"

text \<open>\<open>String.prototype.isWellFormed\<close>: no unpaired surrogate.\<close>

fun isWellFormed :: "jsstring \<Rightarrow> bool" where
  "isWellFormed [] = True"
| "isWellFormed (c # rest) =
     (if is_high_surrogate c then
        (case rest of [] \<Rightarrow> False | d # rest' \<Rightarrow> is_low_surrogate d \<and> isWellFormed rest')
      else \<not> is_low_surrogate c \<and> isWellFormed rest)"

text \<open>\<open>String.prototype.toWellFormed\<close>: unpaired surrogates replaced by U+FFFD.\<close>

definition toWellFormed :: "jsstring \<Rightarrow> jsstring" where
  "toWellFormed s = concat (map utf16_encode_cp (to_scalar_values s))"

definition drop_bom :: "jsstring \<Rightarrow> jsstring" where
  "drop_bom s = (case s of [] \<Rightarrow> [] | c # rest \<Rightarrow> if c = 0xFEFF then rest else s)"

section \<open>JSON values\<close>

text \<open>
  What \<open>JSON.parse\<close> returns, and what a \<open>JsonWebKey\<close> is. A property read gives
  \<open>undefined\<close> (\<open>None\<close>) where there is no such property, and throws a
  \<open>TypeError\<close> on \<open>null\<close>.
\<close>

datatype json =
    JNull
  | JBool bool
  | JNum real
  | JStr jsstring
  | JArr "json list"
  | JObj "(jsstring \<times> json) list"

fun js_get :: "json \<Rightarrow> jsstring \<Rightarrow> js_exn + json option" where
  "js_get JNull k = Inl (JsError (js ''Cannot read properties of null''))"
| "js_get (JObj kvs) k = Inr (map_of kvs k)"
| "js_get v k = Inr None"

fun truthy :: "json option \<Rightarrow> bool" where
  "truthy None = False"
| "truthy (Some JNull) = False"
| "truthy (Some (JBool b)) = b"
| "truthy (Some (JNum r)) = (r \<noteq> 0)"
| "truthy (Some (JStr s)) = (s \<noteq> [])"
| "truthy (Some (JArr xs)) = True"
| "truthy (Some (JObj kvs)) = True"

section \<open>The platform: Web Crypto, JSON, randomness\<close>

text \<open>
  The repository calls \<open>window.crypto.subtle\<close> and \<open>JSON\<close>; their code is the
  browser's. They are parameters of the model: a record of functions over an abstract
  type \<open>'k\<close> of \<open>CryptoKey\<close>s. A call that can reject its promise returns a sum.
  The salt of an RSA-PSS signature is drawn by the platform; it is an explicit argument
  of \<open>sign_RSA_PSS\<close>: salt length, key, salt, data. \<open>verify_RSA_PSS\<close> takes salt
  length, key, signature, data; the AES-GCM functions take nonce, key, data.
  \<open>DOMException_message\<close> is the \<open>message\<close> the platform gives a
  \<open>DOMException\<close> of a given name.
\<close>

datatype key_algorithm = RSA_PSS_SHA256 | AES_GCM_256
datatype key_usage = UseSign | UseVerify | UseEncrypt | UseDecrypt

record 'k platform =
  importKey_jwk :: "json \<Rightarrow> key_algorithm \<Rightarrow> key_usage list \<Rightarrow> js_exn + 'k"
  exportKey_jwk :: "'k \<Rightarrow> js_exn + json"
  generateKey_AES :: "bytes \<Rightarrow> js_exn + 'k"
  sign_RSA_PSS :: "nat \<Rightarrow> 'k \<Rightarrow> bytes \<Rightarrow> bytes \<Rightarrow> js_exn + bytes"
  verify_RSA_PSS :: "nat \<Rightarrow> 'k \<Rightarrow> bytes \<Rightarrow> bytes \<Rightarrow> js_exn + bool"
  encrypt_AES_GCM :: "bytes \<Rightarrow> 'k \<Rightarrow> bytes \<Rightarrow> js_exn + bytes"
  decrypt_AES_GCM :: "bytes \<Rightarrow> 'k \<Rightarrow> bytes \<Rightarrow> js_exn + bytes"
  digest_SHA256 :: "bytes \<Rightarrow> bytes"
  JSON_stringify :: "json \<Rightarrow> jsstring"
  JSON_parse :: "jsstring \<Rightarrow> js_exn + json"
  DOMException_message :: "string \<Rightarrow> jsstring"

text \<open>
  What a run reads from its surroundings: the random bytes \<open>getRandomValues\<close>
  returns, the random bytes the platform salts a signature with, the key-generation
  seed, the value of \<open>crypto.randomUUID()\<close> and of \<open>Date.now()\<close>.
\<close>

record ambient =
  random_bytes :: "nat \<Rightarrow> 8 word"
  salt_bytes :: "nat \<Rightarrow> 8 word"
  key_seed :: bytes
  randomUUID :: jsstring
  now :: int

definition getRandomValues :: "ambient \<Rightarrow> nat \<Rightarrow> bytes" where
  "getRandomValues amb n = map (random_bytes amb) [0..<n]"

text \<open>
  Every call into \<open>crypto.subtle\<close> is logged, in order, so that a run is its result
  together with the platform calls it made.
\<close>

datatype 'k call =
    ImportKey json key_algorithm "key_usage list"
  | ExportKey 'k
  | GenerateKey key_algorithm
  | Sign 'k bytes
  | Verify 'k bytes bytes
  | Encrypt 'k bytes bytes
  | Decrypt 'k bytes bytes
  | Digest bytes

type_synonym ('k, 'a) io = "'k call list \<times> (js_exn + 'a)"

definition io_return :: "'a \<Rightarrow> ('k, 'a) io" where
  "io_return x = ([], Inr x)"

definition io_throw :: "js_exn \<Rightarrow> ('k, 'a) io" where
  "io_throw e = ([], Inl e)"

definition io_lift :: "js_exn + 'a \<Rightarrow> ('k, 'a) io" where
  "io_lift r = ([], r)"

definition io_call :: "'k call \<Rightarrow> js_exn + 'a \<Rightarrow> ('k, 'a) io" where
  "io_call c r = ([c], r)"

definition io_bind :: "('k, 'a) io \<Rightarrow> ('a \<Rightarrow> ('k, 'b) io) \<Rightarrow> ('k, 'b) io" where
  "io_bind m f =
     (case m of
        (t, Inl e) \<Rightarrow> (t, Inl e)
      | (t, Inr x) \<Rightarrow> (case f x of (t', r) \<Rightarrow> (t @ t', r)))"

text \<open>\<open>try { m } catch (e) { h e }\<close>\<close>

definition io_catch :: "('k, 'a) io \<Rightarrow> (js_exn \<Rightarrow> ('k, 'a) io) \<Rightarrow> ('k, 'a) io" where
  "io_catch m h =
     (case m of
        (t, Inl e) \<Rightarrow> (case h e of (t', r) \<Rightarrow> (t @ t', r))
      | (t, Inr x) \<Rightarrow> (t, Inr x))"

section \<open>types.ts\<close>

record PublicIdentity =
  userId :: jsstring
  username :: jsstring
  publicKey :: json
  publicKeyFingerprint :: jsstring

text \<open>A \<open>UserIdentity\<close> is a \<open>PublicIdentity\<close> with the private key beside it.\<close>

record UserIdentity = PublicIdentity +
  privateKey :: json

record EncryptedMessage =
  id' :: jsstring
  senderId :: jsstring
  iv :: jsstring
  encryptedData :: jsstring
  signature :: jsstring
  timestamp :: int

record Message =
  m_id :: jsstring
  m_senderId :: jsstring
  m_text :: jsstring
  m_timestamp :: int
  isLocalSender :: bool

section \<open>services/cryptoService.ts\<close>

definition SIGN_ALGORITHM_saltLength :: nat where
  "SIGN_ALGORITHM_saltLength = 32"

definition arrayBufferToBase64 :: "bytes \<Rightarrow> js_exn + jsstring" where
  "arrayBufferToBase64 buffer = btoa (map ucast buffer)"

definition base64ToArrayBuffer :: "jsstring \<Rightarrow> js_exn + bytes" where
  "base64ToArrayBuffer base64 =
     (case atob base64 of Inl e \<Rightarrow> Inl e | Inr binary_string \<Rightarrow> Inr (map ucast binary_string))"

definition importPublicKey :: "'k platform \<Rightarrow> json \<Rightarrow> ('k, 'k) io" where
  "importPublicKey pf jwk =
     io_call (ImportKey jwk RSA_PSS_SHA256 [UseVerify])
       (importKey_jwk pf jwk RSA_PSS_SHA256 [UseVerify])"

definition importPrivateKey :: "'k platform \<Rightarrow> json \<Rightarrow> ('k, 'k) io" where
  "importPrivateKey pf jwk =
     io_call (ImportKey jwk RSA_PSS_SHA256 [UseSign])
       (importKey_jwk pf jwk RSA_PSS_SHA256 [UseSign])"

text \<open>
  \<open>b.toString(16)\<close>, \<open>padStart(2, '0')\<close> and \<open>toUpperCase()\<close>. The last is
  modelled on ASCII letters, which is all a string of hexadecimal digits holds.
\<close>

definition hex_digit :: "nat \<Rightarrow> 16 word" where
  "hex_digit d = of_nat (if d < 10 then 48 + d else 87 + d)"

definition toString16 :: "8 word \<Rightarrow> jsstring" where
  "toString16 b =
     (if unat b < 16 then [hex_digit (unat b)]
      else [hex_digit (unat b div 16), hex_digit (unat b mod 16)])"

definition padStart :: "nat \<Rightarrow> 16 word \<Rightarrow> jsstring \<Rightarrow> jsstring" where
  "padStart n c s = replicate (n - length s) c @ s"

definition toUpperCase :: "jsstring \<Rightarrow> jsstring" where
  "toUpperCase s = map (\<lambda>c. if 97 \<le> unat c \<and> unat c \<le> 122 then c - 32 else c) s"

definition generatePublicKeyFingerprint :: "'k platform \<Rightarrow> json \<Rightarrow> ('k, jsstring) io" where
  "generatePublicKeyFingerprint pf publicKey' =
     (let pubKeyString = JSON_stringify pf publicKey';
          data = TextEncoder_encode pubKeyString
      in io_bind (io_call (Digest data) (Inr (digest_SHA256 pf data))) (\<lambda>hashArray.
         io_return
           (toUpperCase (take 16 (concat (map (\<lambda>b. padStart 2 48 (toString16 b)) hashArray))))))"

definition generateSharedSecret :: "'k platform \<Rightarrow> ambient \<Rightarrow> ('k, 'k) io" where
  "generateSharedSecret pf amb =
     io_call (GenerateKey AES_GCM_256) (generateKey_AES pf (key_seed amb))"

definition exportAesKey :: "'k platform \<Rightarrow> 'k \<Rightarrow> ('k, json) io" where
  "exportAesKey pf key = io_call (ExportKey key) (exportKey_jwk pf key)"

definition importAesKey :: "'k platform \<Rightarrow> json \<Rightarrow> ('k, 'k) io" where
  "importAesKey pf jwk =
     io_call (ImportKey jwk AES_GCM_256 [UseEncrypt, UseDecrypt])
       (importKey_jwk pf jwk AES_GCM_256 [UseEncrypt, UseDecrypt])"

definition signData :: "'k platform \<Rightarrow> ambient \<Rightarrow> 'k \<Rightarrow> bytes \<Rightarrow> ('k, bytes) io" where
  "signData pf amb privateKey' data =
     io_call (Sign privateKey' data)
       (sign_RSA_PSS pf SIGN_ALGORITHM_saltLength privateKey'
          (map (salt_bytes amb) [0..<SIGN_ALGORITHM_saltLength]) data)"

definition verifySignature :: "'k platform \<Rightarrow> 'k \<Rightarrow> bytes \<Rightarrow> bytes \<Rightarrow> ('k, bool) io" where
  "verifySignature pf publicKey' signature' data =
     io_call (Verify publicKey' signature' data)
       (verify_RSA_PSS pf SIGN_ALGORITHM_saltLength publicKey' signature' data)"

definition encryptMessage :: "'k platform \<Rightarrow> ambient \<Rightarrow> jsstring \<Rightarrow> 'k \<Rightarrow> ('k, bytes \<times> bytes) io" where
  "encryptMessage pf amb text' key =
     (let data = TextEncoder_encode text';
          iv' = getRandomValues amb 12
      in io_bind (io_call (Encrypt key iv' data) (encrypt_AES_GCM pf iv' key data))
           (\<lambda>encryptedData'. io_return (iv', encryptedData')))"

definition DECRYPT_FAILED_TEXT :: jsstring where
  "DECRYPT_FAILED_TEXT =
     [0x26A0, 0xFE0F] @ js '' Could not decrypt message. Key might be wrong or message corrupted.''"

definition decryptMessage :: "'k platform \<Rightarrow> bytes \<Rightarrow> bytes \<Rightarrow> 'k \<Rightarrow> ('k, jsstring) io" where
  "decryptMessage pf encryptedData' iv' key =
     io_catch
       (io_bind (io_call (Decrypt key iv' encryptedData') (decrypt_AES_GCM pf iv' key encryptedData'))
          (\<lambda>decryptedBuffer. io_return (TextDecoder_decode decryptedBuffer)))
       (\<lambda>e. io_return DECRYPT_FAILED_TEXT)"

definition createEncryptedPayload ::
  "'k platform \<Rightarrow> ambient \<Rightarrow> jsstring \<Rightarrow> UserIdentity \<Rightarrow> 'k \<Rightarrow> ('k, EncryptedMessage) io" where
  "createEncryptedPayload pf amb text' localIdentity sharedKey' =
     io_bind (encryptMessage pf amb text' sharedKey') (\<lambda>(iv', encryptedData').
     io_bind (importPrivateKey pf (privateKey localIdentity)) (\<lambda>privateKey'.
     io_bind (signData pf amb privateKey' encryptedData') (\<lambda>signature'.
     io_bind (io_lift (arrayBufferToBase64 iv')) (\<lambda>iv64.
     io_bind (io_lift (arrayBufferToBase64 encryptedData')) (\<lambda>data64.
     io_bind (io_lift (arrayBufferToBase64 signature')) (\<lambda>sig64.
     io_return
       \<lparr>id' = randomUUID amb, senderId = userId localIdentity, iv = iv64,
        encryptedData = data64, signature = sig64, timestamp = now amb\<rparr>))))))"

definition SIGNATURE_INVALID_MESSAGE :: jsstring where
  "SIGNATURE_INVALID_MESSAGE =
     js ''Message signature is invalid! The sender'' @ [39] @
     js ''s identity could not be verified.''"

definition readEncryptedPayload ::
  "'k platform \<Rightarrow> EncryptedMessage \<Rightarrow> 'a PublicIdentity_scheme \<Rightarrow> 'k \<Rightarrow> ('k, jsstring) io" where
  "readEncryptedPayload pf payload peerIdentity sharedKey' =
     io_bind (io_lift (base64ToArrayBuffer (encryptedData payload))) (\<lambda>encryptedData'.
     io_bind (io_lift (base64ToArrayBuffer (signature payload))) (\<lambda>signature'.
     io_bind (io_lift (base64ToArrayBuffer (iv payload))) (\<lambda>iv'.
     io_bind (importPublicKey pf (publicKey peerIdentity)) (\<lambda>publicKey'.
     io_bind (verifySignature pf publicKey' signature' encryptedData') (\<lambda>isVerified.
     if \<not> isVerified then io_throw (JsError SIGNATURE_INVALID_MESSAGE)
     else decryptMessage pf encryptedData' iv' sharedKey')))))"


section \<open>components/ChatInterface.tsx\<close>

text \<open>
  The component's state: the React state variables, and the entry
  \<open>shared-aes-key\<close> of \<open>localStorage\<close>. \<open>peer\<close> and \<open>messages\<close> are kept by
  \<open>useLocalStorage\<close>; \<open>peer\<close> holds whatever \<open>JSON.parse\<close> returned.
\<close>

record 'k chat_state =
  peer :: "json option"
  peerInput :: jsstring
  message :: jsstring
  messages :: "Message list"
  sharedKey :: "'k option"
  error :: jsstring
  isSending :: bool
  stored_shared_aes_key :: "jsstring option"

definition SELF_PEER_ERROR :: jsstring where
  "SELF_PEER_ERROR = js ''You can'' @ [39] @ js ''t add yourself as a peer.''"

definition PEER_FORMAT_ERROR :: jsstring where
  "PEER_FORMAT_ERROR =
     js ''Invalid peer identity format. Please paste the correct JSON payload or scan a valid QR code.''"

text \<open>
  \<open>parsedPeer.userId && parsedPeer.username && parsedPeer.publicKey &&
  parsedPeer.publicKeyFingerprint\<close>, read left to right; a read throws on \<open>null\<close>.
\<close>

definition peer_fields_present :: "json \<Rightarrow> js_exn + bool" where
  "peer_fields_present parsedPeer =
     (case js_get parsedPeer (js ''userId'') of
        Inl e \<Rightarrow> Inl e
      | Inr a \<Rightarrow>
          if \<not> truthy a then Inr False
          else (case js_get parsedPeer (js ''username'') of
            Inl e \<Rightarrow> Inl e
          | Inr b \<Rightarrow>
              if \<not> truthy b then Inr False
              else (case js_get parsedPeer (js ''publicKey'') of
                Inl e \<Rightarrow> Inl e
              | Inr c \<Rightarrow>
                  if \<not> truthy c then Inr False
                  else (case js_get parsedPeer (js ''publicKeyFingerprint'') of
                    Inl e \<Rightarrow> Inl e
                  | Inr d \<Rightarrow> Inr (truthy d)))))"

text \<open>
  The body of the \<open>try\<close> of \<open>handleAddPeer\<close>, run on the state after
  \<open>setError('')\<close>: the new state, or what was thrown.
\<close>

definition handleAddPeer_try ::
  "'k platform \<Rightarrow> UserIdentity \<Rightarrow> 'k chat_state \<Rightarrow> js_exn + 'k chat_state" where
  "handleAddPeer_try pf identity st =
     (case JSON_parse pf (peerInput st) of
        Inl e \<Rightarrow> Inl e
      | Inr parsedPeer \<Rightarrow>
          (case peer_fields_present parsedPeer of
             Inl e \<Rightarrow> Inl e
           | Inr present \<Rightarrow>
               if present then
                 (if js_get parsedPeer (js ''userId'') = Inr (Some (JStr (userId identity)))
                  then Inr (st\<lparr>error := SELF_PEER_ERROR\<rparr>)
                  else Inr (st\<lparr>peer := Some parsedPeer, peerInput := [], messages := [],
                              stored_shared_aes_key := None\<rparr>))
               else Inl (JsError (js ''Invalid peer data structure.''))))"

definition handleAddPeer :: "'k platform \<Rightarrow> UserIdentity \<Rightarrow> 'k chat_state \<Rightarrow> 'k chat_state" where
  "handleAddPeer pf identity st =
     (let st0 = st\<lparr>error := []\<rparr>
      in case handleAddPeer_try pf identity st0 of
           Inl e \<Rightarrow> st0\<lparr>error := PEER_FORMAT_ERROR\<rparr>
         | Inr st' \<Rightarrow> st')"

text \<open>The Disconnect button: \<open>setPeer(null)\<close>.\<close>

definition disconnect :: "'k chat_state \<Rightarrow> 'k chat_state" where
  "disconnect st = st\<lparr>peer := None\<rparr>"

text \<open>
  \<open>deriveAndSetSharedKey\<close> is run by the effect on \<open>peer\<close>, when \<open>peer\<close> is set.
  It is \<open>async\<close>: it awaits \<open>importKey\<close>, or \<open>generateKey\<close> and \<open>exportKey\<close>,
  so what it writes lands in a later task than the handler that changed \<open>peer\<close>, and
  the component handles other events in between. The model is the function from the
  state it finds to the state it leaves; an exception in it is logged or unhandled and
  leaves the state as it was.
\<close>

definition deriveAndSetSharedKey ::
  "'k platform \<Rightarrow> ambient \<Rightarrow> 'k chat_state \<Rightarrow> 'k call list \<times> 'k chat_state" where
  "deriveAndSetSharedKey pf amb st =
     (let storedKey = stored_shared_aes_key st
      in if storedKey \<noteq> None \<and> storedKey \<noteq> Some [] \<and> truthy (peer st) then
           (case JSON_parse pf (the storedKey) of
              Inl e \<Rightarrow> ([], st)
            | Inr jwk \<Rightarrow>
                (case importAesKey pf jwk of
                   (t, Inl e) \<Rightarrow> (t, st)
                 | (t, Inr key) \<Rightarrow> (t, st\<lparr>sharedKey := Some key\<rparr>)))
         else if truthy (peer st) then
           (case io_bind (generateSharedSecret pf amb) (\<lambda>newKey.
                 io_bind (exportAesKey pf newKey) (\<lambda>jwk. io_return (newKey, jwk))) of
              (t, Inl e) \<Rightarrow> (t, st)
            | (t, Inr (newKey, jwk)) \<Rightarrow>
                (t, st\<lparr>stored_shared_aes_key := Some (JSON_stringify pf jwk),
                       sharedKey := Some newKey\<rparr>))
         else ([], st))"

text \<open>
  \<open>String.prototype.trim\<close> removes white space and line terminators at both ends.
\<close>

definition js_whitespace :: "16 word \<Rightarrow> bool" where
  "js_whitespace c \<longleftrightarrow>
     c \<in> {0x09, 0x0A, 0x0B, 0x0C, 0x0D, 0x20, 0xA0, 0x1680, 0x2028, 0x2029, 0x202F, 0x205F,
          0x3000, 0xFEFF} \<or> (0x2000 \<le> unat c \<and> unat c \<le> 0x200A)"

definition trim :: "jsstring \<Rightarrow> jsstring" where
  "trim s = rev (dropWhile js_whitespace (rev (dropWhile js_whitespace s)))"

text \<open>\<open>e instanceof Error ? e.message : ...\<close>; a \<open>DOMException\<close> is an \<open>Error\<close>, and
  its message is the platform's wording.\<close>

fun exn_message :: "'k platform \<Rightarrow> js_exn \<Rightarrow> jsstring" where
  "exn_message pf (JsError m) = m"
| "exn_message pf (DOMException n) = DOMException_message pf n"

text \<open>
  \<open>handleSendMessage\<close> up to the \<open>setTimeout\<close>: the calls made, the new state, and
  the envelope handed to the timer (with the \<open>sharedKey\<close> and \<open>peer\<close> the closure
  holds) when sealing succeeded. The timer's callback, which opens that envelope again
  with the same key and appends what it reads, is not part of the model.
\<close>

definition handleSendMessage ::
  "'k platform \<Rightarrow> ambient \<Rightarrow> UserIdentity \<Rightarrow> 'k chat_state
     \<Rightarrow> 'k call list \<times> 'k chat_state \<times> (EncryptedMessage \<times> json option \<times> 'k) option" where
  "handleSendMessage pf amb identity st =
     (case sharedKey st of
        None \<Rightarrow> ([], st, None)
      | Some key \<Rightarrow>
          if trim (message st) = [] \<or> \<not> truthy (peer st) then ([], st, None)
          else
            (case createEncryptedPayload pf amb (trim (message st)) identity key of
               (t, Inr encryptedPayload) \<Rightarrow>
                 (t,
                  st\<lparr>messages := messages st @
                        [\<lparr>m_id = id' encryptedPayload, m_senderId = userId identity,
                          m_text = trim (message st), m_timestamp = timestamp encryptedPayload,
                          isLocalSender = True\<rparr>],
                     message := [], isSending := False\<rparr>,
                  Some (encryptedPayload, peer st, key))
             | (t, Inl e) \<Rightarrow>
                 (t,
                  st\<lparr>messages := messages st @
                        [\<lparr>m_id = randomUUID amb, m_senderId = js ''system'',
                          m_text = [0x26A0, 0xFE0F] @ js '' Error sending message: '' @ exn_message pf e,
                          m_timestamp = now amb, isLocalSender = True\<rparr>],
                     isSending := False\<rparr>,
                  None)))"

text \<open>\<open>getPublicIdentity\<close>: the public part of the local identity.\<close>

definition getPublicIdentity :: "UserIdentity \<Rightarrow> PublicIdentity" where
  "getPublicIdentity identity =
     \<lparr>userId = userId identity, username = username identity, publicKey = publicKey identity,
      publicKeyFingerprint = publicKeyFingerprint identity\<rparr>"

section \<open>A test double of the platform\<close>

text \<open>
  A small stand-in for the platform, to run the model on concrete inputs. It is no
  cryptography: a key is one byte, encryption adds it to every byte and appends a
  one-byte tag made of key and nonce, a signature is the salt followed by the shifted
  data. It keeps the contracts the repository relies on: decryption inverts encryption
  under the same key and rejects another key's tag, verification accepts what signing
  produced.
  \<open>JSON.parse\<close> knows the two peer payloads and the stored key used below.
\<close>

definition demo_jwk :: "8 word \<Rightarrow> json" where
  "demo_jwk k = JObj [(js ''k'', JStr [ucast k])]"

definition demo_importKey :: "json \<Rightarrow> key_algorithm \<Rightarrow> key_usage list \<Rightarrow> js_exn + 8 word" where
  "demo_importKey jwk alg usages =
     (case jwk of
        JObj [(n, JStr [c])] \<Rightarrow> if n = js ''k'' then Inr (ucast c) else Inl (DOMException ''DataError'')
      | _ \<Rightarrow> Inl (DOMException ''DataError''))"

definition demo_generateKey :: "bytes \<Rightarrow> js_exn + 8 word" where
  "demo_generateKey seed = (case seed of [] \<Rightarrow> Inl (DOMException ''OperationError'') | b # _ \<Rightarrow> Inr b)"

definition demo_sign :: "nat \<Rightarrow> 8 word \<Rightarrow> bytes \<Rightarrow> bytes \<Rightarrow> js_exn + bytes" where
  "demo_sign saltLength k salt data =
     (if length salt = saltLength then Inr (salt @ map (\<lambda>b. b + k) data)
      else Inl (DOMException ''OperationError''))"

definition demo_verify :: "nat \<Rightarrow> 8 word \<Rightarrow> bytes \<Rightarrow> bytes \<Rightarrow> js_exn + bool" where
  "demo_verify saltLength k sg data =
     Inr (length sg = saltLength + length data \<and> drop saltLength sg = map (\<lambda>b. b + k) data)"

definition demo_encrypt :: "bytes \<Rightarrow> 8 word \<Rightarrow> bytes \<Rightarrow> js_exn + bytes" where
  "demo_encrypt iv' k data = Inr (map (\<lambda>b. b + k) data @ [k + foldr (+) iv' 1])"

definition demo_decrypt :: "bytes \<Rightarrow> 8 word \<Rightarrow> bytes \<Rightarrow> js_exn + bytes" where
  "demo_decrypt iv' k ct =
     (if ct \<noteq> [] \<and> last ct = k + foldr (+) iv' 1 then Inr (map (\<lambda>b. b - k) (butlast ct))
      else Inl (DOMException ''OperationError''))"

definition demo_digest :: "bytes \<Rightarrow> bytes" where
  "demo_digest data = map (\<lambda>i. foldr (+) data 0) [0..<32]"

definition demo_stringify :: "json \<Rightarrow> jsstring" where
  "demo_stringify j = (case j of JObj [(n, JStr s)] \<Rightarrow> n @ s | JStr s \<Rightarrow> s | _ \<Rightarrow> [])"

definition demo_peer :: "string \<Rightarrow> 8 word \<Rightarrow> json" where
  "demo_peer name k =
     JObj [(js ''userId'', JStr (js name)), (js ''username'', JStr (js name)),
           (js ''publicKey'', demo_jwk k), (js ''publicKeyFingerprint'', JStr (js ''00''))]"

definition demo_parse :: "jsstring \<Rightarrow> js_exn + json" where
  "demo_parse s =
     (if s = js ''alice'' then Inr (demo_peer ''alice'' 1)
      else if s = js ''bob'' then Inr (demo_peer ''bob'' 2)
      else if s = js ''carol'' then Inr (demo_peer ''carol'' 3)
      else if s = js ''k'' @ [9] then Inr (demo_jwk 9)
      else Inl (JsError (js ''Unexpected token'')))"

definition demo :: "(8 word) platform" where
  "demo = \<lparr>importKey_jwk = demo_importKey, exportKey_jwk = (\<lambda>k. Inr (demo_jwk k)),
     generateKey_AES = demo_generateKey, sign_RSA_PSS = demo_sign, verify_RSA_PSS = demo_verify,
     encrypt_AES_GCM = demo_encrypt, decrypt_AES_GCM = demo_decrypt, digest_SHA256 = demo_digest,
     JSON_stringify = demo_stringify, JSON_parse = demo_parse, DOMException_message = js\<rparr>"

definition demo_ambient :: ambient where
  "demo_ambient = \<lparr>random_bytes = (\<lambda>i. 7), salt_bytes = (\<lambda>i. 5), key_seed = [9],
     randomUUID = js ''id-1'', now = 1000\<rparr>"

definition alice :: UserIdentity where
  "alice = \<lparr>userId = js ''alice'', username = js ''alice'', publicKey = demo_jwk 1,
     publicKeyFingerprint = js ''00'', privateKey = demo_jwk 1\<rparr>"


section \<open>What the claims assume of the platform\<close>

text \<open>
  The identity's two JWKs are a key pair: what the imported private key signs, the
  imported public key verifies.
\<close>

definition matching_key_pair :: "'k platform \<Rightarrow> UserIdentity \<Rightarrow> bool" where
  "matching_key_pair pf identity \<longleftrightarrow>
     (\<forall>sk salt data sg.
        importKey_jwk pf (privateKey identity) RSA_PSS_SHA256 [UseSign] = Inr sk
        \<and> sign_RSA_PSS pf SIGN_ALGORITHM_saltLength sk salt data = Inr sg
        \<longrightarrow> (\<exists>pk. importKey_jwk pf (publicKey identity) RSA_PSS_SHA256 [UseVerify] = Inr pk
              \<and> verify_RSA_PSS pf SIGN_ALGORITHM_saltLength pk sg data = Inr True))"

text \<open>The key is an AES-GCM key: decryption under it returns what encryption was given.\<close>

definition aead_key :: "'k platform \<Rightarrow> 'k \<Rightarrow> bool" where
  "aead_key pf key \<longleftrightarrow>
     (\<forall>nonce data ct. encrypt_AES_GCM pf nonce key data = Inr ct
        \<longrightarrow> decrypt_AES_GCM pf nonce key ct = Inr data)"

section \<open>Hexadecimal text of a digest\<close>

text \<open>
  The lowercase hexadecimal encoding of a byte string, two digits a byte, and what the
  fingerprint keeps of a digest: the first 16 characters of its encoding, in upper case.
  Both are functions of the digest bytes alone.
\<close>

definition hex_byte :: "8 word \<Rightarrow> jsstring" where
  "hex_byte b = [hex_digit (unat b div 16), hex_digit (unat b mod 16)]"

definition hex :: "bytes \<Rightarrow> jsstring" where
  "hex bs = concat (map hex_byte bs)"

definition truncated_upper_hex :: "bytes \<Rightarrow> jsstring" where
  "truncated_upper_hex digest = toUpperCase (take 16 (hex digest))"

definition upper_hex_char :: "16 word \<Rightarrow> bool" where
  "upper_hex_char c \<longleftrightarrow> (48 \<le> unat c \<and> unat c \<le> 57) \<or> (65 \<le> unat c \<and> unat c \<le> 70)"

section \<open>Concrete runs\<close>

text \<open>
  Envelopes of the test double. \<open>sealed_hi\<close> is what \<open>alice\<close> seals for the text
  \<open>hi\<close> under session key 4; \<open>sealed_bom\<close> the same for the text U+FEFF \<open>hi\<close>.
  The others are \<open>sealed_hi\<close> with one field replaced: a ciphertext that is not the
  signed one, a ciphertext (with its signature) that decrypts to the byte FB, a
  three-byte nonce, and a nonce that is no base64.
\<close>

definition sealed_hi :: EncryptedMessage where
  "sealed_hi = \<lparr>id' = js ''id-1'', senderId = js ''alice'', iv = js ''BwcHBwcHBwcHBwcH'',
     encryptedData = js ''bG1Z'',
     signature = js ''BQUFBQUFBQUFBQUFBQUFBQUFBQUFBQUFBQUFBQUFBQVtblo='', timestamp = 1000\<rparr>"

definition sealed_bom :: EncryptedMessage where
  "sealed_bom = sealed_hi\<lparr>encryptedData := js ''87/DbG1Z'',
     signature := js ''BQUFBQUFBQUFBQUFBQUFBQUFBQUFBQUFBQUFBQUFBQX0wMRtblo=''\<rparr>"

definition tampered_hi :: EncryptedMessage where
  "tampered_hi = sealed_hi\<lparr>encryptedData := js ''bG5Z''\<rparr>"

definition sealed_invalid_text :: EncryptedMessage where
  "sealed_invalid_text = sealed_hi\<lparr>encryptedData := js ''/1k='',
     signature := js ''BQUFBQUFBQUFBQUFBQUFBQUFBQUFBQUFBQUFBQUFBQUAWg==''\<rparr>"

definition short_nonce_hi :: EncryptedMessage where
  "short_nonce_hi = sealed_hi\<lparr>iv := js ''BwcH''\<rparr>"

definition malformed_hi :: EncryptedMessage where
  "malformed_hi = sealed_hi\<lparr>iv := js ''@@@@''\<rparr>"

definition salt32 :: bytes where
  "salt32 = [5, 5, 5, 5, 5, 5, 5, 5, 5, 5, 5, 5, 5, 5, 5, 5, 5, 5, 5, 5, 5, 5, 5, 5, 5, 5, 5, 5,
     5, 5, 5, 5]"

definition nonce12 :: bytes where
  "nonce12 = [7, 7, 7, 7, 7, 7, 7, 7, 7, 7, 7, 7]"

text \<open>
  A session of the component on the test double, with \<open>alice\<close> as the local identity:
  the state at mount with nothing stored; \<open>bob\<close> is pasted and connected;
  \<open>deriveAndSetSharedKey\<close> completes; the peer is disconnected; \<open>carol\<close> is pasted
  and connected, and \<open>deriveAndSetSharedKey\<close> has not completed yet.
\<close>

definition chat0 :: "(8 word) chat_state" where
  "chat0 = \<lparr>peer = None, peerInput = [], message = [], messages = [], sharedKey = None,
     error = [], isSending = False, stored_shared_aes_key = None\<rparr>"

definition chat_bob :: "(8 word) chat_state" where
  "chat_bob = handleAddPeer demo alice (chat0\<lparr>peerInput := js ''bob''\<rparr>)"

definition chat_bob_keyed :: "(8 word) chat_state" where
  "chat_bob_keyed = snd (deriveAndSetSharedKey demo demo_ambient chat_bob)"

definition chat_carol :: "(8 word) chat_state" where
  "chat_carol = handleAddPeer demo alice ((disconnect chat_bob_keyed)\<lparr>peerInput := js ''carol''\<rparr>)"

section \<open>Auxiliary definitions for the proofs\<close>

text \<open>The six-bit groups of a byte sequence, before the padding is added.\<close>

fun b64_sextets :: "nat list \<Rightarrow> nat list" where
  "b64_sextets (a # b # c # rest) =
     [a div 4, (a mod 4) * 16 + b div 16, (b mod 16) * 4 + c div 64, c mod 64] @ b64_sextets rest"
| "b64_sextets [a, b] = [a div 4, (a mod 4) * 16 + b div 16, (b mod 16) * 4]"
| "b64_sextets [a] = [a div 4, (a mod 4) * 16]"
| "b64_sextets [] = []"

text \<open>A Unicode scalar value: a code point that is no surrogate.\<close>

definition scalar :: "nat \<Rightarrow> bool" where
  "scalar c \<longleftrightarrow> c < 0x110000 \<and> \<not> (0xD800 \<le> c \<and> c \<le> 0xDFFF)"

section \<open>Base64: decoding inverts encoding\<close>

lemma d16: "x < 256 \<Longrightarrow> x div 16 < (16::nat)" by (simp add: less_mult_imp_div_less)
lemma d64: "x < 256 \<Longrightarrow> x div 64 < (4::nat)" by (simp add: less_mult_imp_div_less)
lemma d4: "x < 256 \<Longrightarrow> x div 4 < (64::nat)" by (simp add: less_mult_imp_div_less)

lemma sx1: "b < 256 \<Longrightarrow> (a mod 4) * 16 + b div 16 < (64::nat)"
proof -
  assume "b < 256"
  then have "b div 16 < 16" by (rule d16)
  moreover have "a mod 4 < 4" by simp
  ultimately show ?thesis by linarith
qed

lemma sx2: "c < 256 \<Longrightarrow> (b mod 16) * 4 + c div 64 < (64::nat)"
proof -
  assume "c < 256"
  then have "c div 64 < 4" by (rule d64)
  moreover have "b mod 16 < 16" by simp
  ultimately show ?thesis by linarith
qed

lemma sx3: "(b mod 16) * 4 < (64::nat)"
proof -
  have "b mod 16 < 16" by simp
  then show ?thesis by linarith
qed

lemma dc1: "b < 256 \<Longrightarrow> (a div 4) * 4 + ((a mod 4) * 16 + b div 16) div 16 = (a::nat)"
proof -
  assume "b < 256"
  then have "b div 16 < 16" by (rule d16)
  then have "((a mod 4) * 16 + b div 16) div 16 = a mod 4" by simp
  then show ?thesis by simp
qed

lemma dc2: "b < 256 \<Longrightarrow> c < 256 \<Longrightarrow>
  (((a mod 4) * 16 + b div 16) mod 16) * 16 + ((b mod 16) * 4 + c div 64) div 4 = (b::nat)"
proof -
  assume b: "b < 256" and c: "c < 256"
  from b have b16: "b div 16 < 16" by (rule d16)
  from c have c64: "c div 64 < 4" by (rule d64)
  have "((a mod 4) * 16 + b div 16) mod 16 = b div 16" using b16 by simp
  moreover have "((b mod 16) * 4 + c div 64) div 4 = b mod 16" using c64 by simp
  ultimately show ?thesis by simp
qed

lemma dc2': "b < 256 \<Longrightarrow>
  (((a mod 4) * 16 + b div 16) mod 16) * 16 + ((b mod 16) * 4) div 4 = (b::nat)"
  using dc2[of b 0 a] by simp

lemma dc3: "c < 256 \<Longrightarrow> (((b mod 16) * 4 + c div 64) mod 4) * 64 + c mod 64 = (c::nat)"
proof -
  assume c: "c < 256"
  from c have c64: "c div 64 < 4" by (rule d64)
  have "((b mod 16) * 4 + c div 64) mod 4 = c div 64" using c64 by simp
  then show ?thesis by simp
qed

lemma dc1': "(a div 4) * 4 + ((a mod 4) * 16) div 16 = (a::nat)"
  by simp

lemma b64_index_char: "n < 64 \<Longrightarrow> b64_index (b64_char n) = Some n"
  by (auto simp: b64_index_def b64_char_def Let_def unat_of_nat)

lemma b64_char_not_pad: "n < 64 \<Longrightarrow> b64_char n \<noteq> 61"
  using b64_index_char[of n] by (auto simp: b64_index_def)

lemma b64_char_not_ws: "n < 64 \<Longrightarrow> \<not> ascii_whitespace (b64_char n)"
  using b64_index_char[of n] by (auto simp: b64_index_def ascii_whitespace_def)

lemma sextets_bound: "list_all (\<lambda>b. b < 256) bs \<Longrightarrow> list_all (\<lambda>n. n < 64) (b64_sextets bs)"
proof (induction bs rule: b64_sextets.induct)
  case (1 a b c rest)
  then show ?case by (simp add: sx1 sx2 d4)
next
  case (2 a b) then show ?case by (simp add: sx1 sx3 d4)
next
  case (3 a) then show ?case using sx1[of 0 a] by (simp add: d4)
qed simp

lemma decode_sextets: "list_all (\<lambda>b. b < 256) bs \<Longrightarrow> b64_decode (b64_sextets bs) = bs"
proof (induction bs rule: b64_sextets.induct)
  case (1 a b c rest)
  then have "b < 256" "c < 256" and IH: "b64_decode (b64_sextets rest) = rest" by simp_all
  then show ?case
    by (simp only: b64_sextets.simps append.simps b64_decode.simps dc1 dc2 dc3)
next
  case (2 a b)
  then have "b < 256" by simp
  then show ?case
    by (simp only: b64_sextets.simps append.simps b64_decode.simps dc1 dc2')
next
  case (3 a) then show ?case by simp
qed simp

lemma sextets_len: "length (b64_sextets bs) mod 4 \<noteq> 1"
  by (induction bs rule: b64_sextets.induct) simp_all

lemma encode_len: "length (b64_encode bs) mod 4 = 0"
  by (induction bs rule: b64_encode.induct) simp_all

lemma ws_pad: "\<not> ascii_whitespace 61"
  by (simp add: ascii_whitespace_def)

lemma encode_chars:
  "list_all (\<lambda>b. b < 256) bs \<Longrightarrow> list_all (\<lambda>c. \<not> ascii_whitespace c) (b64_encode bs)"
proof (induction bs rule: b64_encode.induct)
  case (1 a b c rest)
  then show ?case by (simp add: b64_char_not_ws sx1 sx2 d4)
next
  case (2 a b) then show ?case by (simp add: b64_char_not_ws sx1 sx3 d4 ws_pad)
next
  case (3 a) then show ?case using sx1[of 0 a] by (simp add: b64_char_not_ws d4 ws_pad)
qed simp

lemma encode_no_ws:
  "list_all (\<lambda>b. b < 256) bs \<Longrightarrow> filter (\<lambda>c. \<not> ascii_whitespace c) (b64_encode bs) = b64_encode bs"
  using encode_chars[of bs] by (simp add: filter_id_conv list_all_iff)

lemma strip_padding_append:
  assumes "length pre mod 4 = 0" "length e mod 4 = 0" "e \<noteq> []"
  shows "strip_padding (pre @ e) = pre @ strip_padding e"
proof -
  from assms have "2 \<le> length e" by (cases e; cases "tl e"; auto)
  then have "butlast e \<noteq> []" by (cases e; cases "tl e"; auto)
  with assms show ?thesis
    by (auto simp: strip_padding_def butlast_append mod_add_eq)
qed

lemma strip_encode:
  "list_all (\<lambda>b. b < 256) bs \<Longrightarrow> strip_padding (b64_encode bs) = map b64_char (b64_sextets bs)"
proof (induction bs rule: b64_encode.induct)
  case (1 a b c rest)
  let ?pre = "[b64_char (a div 4), b64_char ((a mod 4) * 16 + b div 16),
      b64_char ((b mod 16) * 4 + c div 64), b64_char (c mod 64)]"
  show ?case
  proof (cases "rest = []")
    case True
    have "b64_char (c mod 64) \<noteq> 61" by (rule b64_char_not_pad) simp
    with True show ?thesis by (simp add: strip_padding_def)
  next
    case False
    then have ne: "b64_encode rest \<noteq> []" by (cases rest rule: b64_encode.cases) auto
    have "strip_padding (?pre @ b64_encode rest) = ?pre @ strip_padding (b64_encode rest)"
      by (rule strip_padding_append) (simp_all add: encode_len ne)
    with 1 show ?thesis by simp
  qed
next
  case (2 a b)
  have "b64_char ((b mod 16) * 4) \<noteq> 61" by (rule b64_char_not_pad) (rule sx3)
  then show ?case by (simp add: strip_padding_def)
next
  case (3 a)
  then show ?case by (simp add: strip_padding_def)
qed (simp add: strip_padding_def)

lemma those_index_char:
  "list_all (\<lambda>n. n < 64) xs \<Longrightarrow> those (map b64_index (map b64_char xs)) = Some xs"
  by (induction xs) (simp_all add: b64_index_char)

lemma forgiving_decode_encode:
  assumes "list_all (\<lambda>b. b < 256) bs"
  shows "forgiving_base64_decode (b64_encode bs) = Some bs"
proof -
  have "those (map b64_index (map b64_char (b64_sextets bs))) = Some (b64_sextets bs)"
    by (rule those_index_char) (rule sextets_bound[OF assms])
  then show ?thesis
    using sextets_len[of bs]
    by (simp add: forgiving_base64_decode_def encode_no_ws[OF assms] strip_encode[OF assms]
      decode_sextets[OF assms] del: map_map)
qed

lemma atob_btoa:
  assumes "list_all (\<lambda>c. unat c \<le> 255) s"
  shows "btoa s = Inr (b64_encode (map unat s)) \<and> atob (b64_encode (map unat s)) = Inr s"
proof -
  have a: "\<not> list_ex (\<lambda>c. 255 < unat c) s" using assms by (induction s) auto
  have b: "list_all (\<lambda>b. b < 256) (map unat s)" using assms by (induction s) auto
  have c: "map of_nat (map unat s) = s" by (induction s) auto
  show ?thesis using a c by (simp add: btoa_def atob_def forgiving_decode_encode[OF b] del: map_map)
qed

text \<open>The two helpers of the service are inverse to each other on every buffer.\<close>

lemma base64_roundtrip:
  "\<exists>s. arrayBufferToBase64 buffer = Inr s \<and> base64ToArrayBuffer s = Inr buffer"
proof -
  have le: "list_all (\<lambda>c. unat c \<le> 255) (map ucast buffer :: 16 word list)"
  proof (induction buffer)
    case Nil show ?case by simp
  next
    case (Cons b bs)
    have lt: "unat b < 256" using unsigned_less[of b, where ?'a=nat] by simp
    then have "unat (ucast b :: 16 word) = unat b" by (simp add: unsigned_ucast_eq take_bit_eq_mod)
    then show ?case using Cons lt by simp
  qed
  have inv: "map ucast (map ucast buffer :: 16 word list) = buffer"
    by (induction buffer) (simp_all add: ucast_up_ucast_id is_up)
  show ?thesis
    using atob_btoa[OF le] inv
    by (simp add: arrayBufferToBase64_def base64ToArrayBuffer_def del: map_map)
qed

section \<open>Text: what decoding an encoded string gives\<close>

lemma dec_ascii: "b \<le> 0x7F \<Longrightarrow> utf8_decoder cp seen 0 lo hi (b # bs) = b # utf8_decoder 0 0 0 0x80 0xBF bs"
  by simp

lemma dec_lead2: "0xC2 \<le> b \<Longrightarrow> b \<le> 0xDF \<Longrightarrow>
  utf8_decoder cp seen 0 lo hi (b # bs) = utf8_decoder (b mod 32) 0 1 0x80 0xBF bs"
  by simp

lemma dec_lead3: "0xE0 \<le> b \<Longrightarrow> b \<le> 0xEF \<Longrightarrow>
  utf8_decoder cp seen 0 lo hi (b # bs) =
    utf8_decoder (b mod 16) 0 2 (if b = 0xE0 then 0xA0 else 0x80) (if b = 0xED then 0x9F else 0xBF) bs"
  by simp

lemma dec_lead4: "0xF0 \<le> b \<Longrightarrow> b \<le> 0xF4 \<Longrightarrow>
  utf8_decoder cp seen 0 lo hi (b # bs) =
    utf8_decoder (b mod 8) 0 3 (if b = 0xF0 then 0x90 else 0x80) (if b = 0xF4 then 0x8F else 0xBF) bs"
  by simp

lemma dec_cont: "needed \<noteq> 0 \<Longrightarrow> lo \<le> b \<Longrightarrow> b \<le> hi \<Longrightarrow> seen + 1 \<noteq> needed \<Longrightarrow>
  utf8_decoder cp seen needed lo hi (b # bs) =
    utf8_decoder (cp * 64 + b mod 64) (seen + 1) needed 0x80 0xBF bs"
  by simp

lemma dec_last: "needed \<noteq> 0 \<Longrightarrow> lo \<le> b \<Longrightarrow> b \<le> hi \<Longrightarrow> seen + 1 = needed \<Longrightarrow>
  utf8_decoder cp seen needed lo hi (b # bs) =
    (cp * 64 + b mod 64) # utf8_decoder 0 0 0 0x80 0xBF bs"
  by simp

lemma add_mod_drop: "l < n \<Longrightarrow> (q * n + l) mod n = (l::nat)"
  by simp

lemma add_div_drop: "l < n \<Longrightarrow> (q * n + l) div n = (q::nat)"
  by simp

lemma cont_mod: "l < 64 \<Longrightarrow> (128 + l) mod 64 = (l::nat)"
  using add_mod_drop[of l 64 2] by simp

lemma cont_range: "l < 64 \<Longrightarrow> (128::nat) \<le> 128 + l \<and> 128 + l \<le> 191"
  by simp

lemma dec_enc_2:
  assumes "0x80 \<le> c" "c < 0x800"
  shows "utf8_decoder 0 0 0 0x80 0xBF ([0xC0 + c div 64, 0x80 + c mod 64] @ rest)
    = c # utf8_decoder 0 0 0 0x80 0xBF rest"
proof -
  define h l where "h = c div 64" and "l = c mod 64"
  have c: "h * 64 + l = c" by (simp add: h_def l_def)
  have l: "l < 64" by (simp add: l_def)
  have h: "2 \<le> h" "h < 32"
    using assms by (simp_all add: h_def less_eq_div_iff_mult_less_eq div_less_iff_less_mult)
  have m: "(192 + h) mod 32 = h" using add_mod_drop[of h 32 6] h by simp
  have r1: "194 \<le> 192 + h" "192 + h \<le> 223" using h by simp_all
  have "utf8_decoder 0 0 0 0x80 0xBF ((192 + h) # (128 + l) # rest)
      = utf8_decoder ((192 + h) mod 32) 0 1 0x80 0xBF ((128 + l) # rest)"
    using r1 by (rule dec_lead2)
  also have "\<dots> = utf8_decoder h 0 1 128 191 ((128 + l) # rest)"
    by (simp only: m)
  also have "\<dots> = (h * 64 + (128 + l) mod 64) # utf8_decoder 0 0 0 0x80 0xBF rest"
    using cont_range[OF l] by (intro dec_last) simp_all
  also have "h * 64 + (128 + l) mod 64 = c" by (simp only: cont_mod[OF l] c)
  finally have main: "utf8_decoder 0 0 0 0x80 0xBF ((192 + h) # (128 + l) # rest)
      = c # utf8_decoder 0 0 0 0x80 0xBF rest" .
  have eq: "[0xC0 + c div 64, 0x80 + c mod 64] @ rest = (192 + h) # (128 + l) # rest"
    by (simp add: h_def l_def)
  show ?thesis by (simp only: eq main)
qed


lemma dec_enc_3:
  assumes "0x800 \<le> c" "c < 0x10000" "\<not> (0xD800 \<le> c \<and> c \<le> 0xDFFF)"
  shows "utf8_decoder 0 0 0 0x80 0xBF
      ([0xE0 + c div 4096, 0x80 + (c div 64) mod 64, 0x80 + c mod 64] @ rest)
    = c # utf8_decoder 0 0 0 0x80 0xBF rest"
proof -
  define d h m l where "d = c div 64" and "h = d div 64" and "m = d mod 64" and "l = c mod 64"
  have c: "d * 64 + l = c" by (simp add: d_def l_def)
  have d: "h * 64 + m = d" by (simp add: h_def m_def)
  have l: "l < 64" by (simp add: l_def)
  have m: "m < 64" by (simp add: m_def)
  have hc: "c div 4096 = h" using div_mult2_eq[of c 64 64] by (simp add: h_def d_def)
  have dr: "32 \<le> d" "d < 1024" "d < 864 \<or> 896 \<le> d"
    using assms by (auto simp: d_def less_eq_div_iff_mult_less_eq div_less_iff_less_mult)
  have h: "h < 16" using dr d m by linarith
  have md: "(224 + h) mod 16 = h" using add_mod_drop[of h 16 14] h by simp
  have r1: "224 \<le> 224 + h" "224 + h \<le> 239" using h by simp_all
  have r2: "(if 224 + h = 224 then 160 else 128) \<le> 128 + m"
    "128 + m \<le> (if 224 + h = 237 then 159 else 191)"
    using dr d m by (auto split: if_splits)
  have "utf8_decoder 0 0 0 0x80 0xBF ((224 + h) # (128 + m) # (128 + l) # rest)
      = utf8_decoder ((224 + h) mod 16) 0 2 (if 224 + h = 224 then 160 else 128)
          (if 224 + h = 237 then 159 else 191) ((128 + m) # (128 + l) # rest)"
    using r1 by (rule dec_lead3)
  also have "\<dots> = utf8_decoder h 0 2 (if 224 + h = 224 then 160 else 128)
          (if 224 + h = 237 then 159 else 191) ((128 + m) # (128 + l) # rest)"
    by (simp only: md)
  also have "\<dots> = utf8_decoder (h * 64 + (128 + m) mod 64) (0 + 1) 2 0x80 0xBF ((128 + l) # rest)"
    using r2 by (intro dec_cont) simp_all
  also have "\<dots> = utf8_decoder d 1 2 128 191 ((128 + l) # rest)"
    by (simp only: cont_mod[OF m] d) simp
  also have "\<dots> = (d * 64 + (128 + l) mod 64) # utf8_decoder 0 0 0 0x80 0xBF rest"
    using cont_range[OF l] by (intro dec_last) simp_all
  also have "d * 64 + (128 + l) mod 64 = c" by (simp only: cont_mod[OF l] c)
  finally have main: "utf8_decoder 0 0 0 0x80 0xBF ((224 + h) # (128 + m) # (128 + l) # rest)
      = c # utf8_decoder 0 0 0 0x80 0xBF rest" .
  have eq: "[0xE0 + c div 4096, 0x80 + (c div 64) mod 64, 0x80 + c mod 64] @ rest
      = (224 + h) # (128 + m) # (128 + l) # rest"
    by (simp add: hc m_def d_def l_def)
  show ?thesis by (simp only: eq main)
qed

lemma dec_enc_4:
  assumes "0x10000 \<le> c" "c < 0x110000"
  shows "utf8_decoder 0 0 0 0x80 0xBF
      ([0xF0 + c div 262144, 0x80 + (c div 4096) mod 64, 0x80 + (c div 64) mod 64,
        0x80 + c mod 64] @ rest)
    = c # utf8_decoder 0 0 0 0x80 0xBF rest"
proof -
  define d e h m1 m2 l where "d = c div 64" and "e = d div 64" and "h = e div 64"
    and "m1 = e mod 64" and "m2 = d mod 64" and "l = c mod 64"
  have c: "d * 64 + l = c" by (simp add: d_def l_def)
  have d: "e * 64 + m2 = d" by (simp add: e_def m2_def)
  have e: "h * 64 + m1 = e" by (simp add: h_def m1_def)
  have l: "l < 64" by (simp add: l_def)
  have m2: "m2 < 64" by (simp add: m2_def)
  have m1: "m1 < 64" by (simp add: m1_def)
  have ec: "c div 4096 = e" using div_mult2_eq[of c 64 64] by (simp add: e_def d_def)
  have hc: "c div 262144 = h" using div_mult2_eq[of c 4096 64] by (simp add: h_def ec)
  have er: "16 \<le> e" "e < 272"
    using assms by (simp_all add: ec[symmetric] less_eq_div_iff_mult_less_eq div_less_iff_less_mult)
  have h: "h < 5" using er e m1 by linarith
  have md: "(240 + h) mod 8 = h" using add_mod_drop[of h 8 30] h by simp
  have r1: "240 \<le> 240 + h" "240 + h \<le> 244" using h by simp_all
  have r2: "(if 240 + h = 240 then 144 else 128) \<le> 128 + m1"
    "128 + m1 \<le> (if 240 + h = 244 then 143 else 191)"
    using er e m1 by (auto split: if_splits)
  have "utf8_decoder 0 0 0 0x80 0xBF ((240 + h) # (128 + m1) # (128 + m2) # (128 + l) # rest)
      = utf8_decoder ((240 + h) mod 8) 0 3 (if 240 + h = 240 then 144 else 128)
          (if 240 + h = 244 then 143 else 191) ((128 + m1) # (128 + m2) # (128 + l) # rest)"
    using r1 by (rule dec_lead4)
  also have "\<dots> = utf8_decoder h 0 3 (if 240 + h = 240 then 144 else 128)
          (if 240 + h = 244 then 143 else 191) ((128 + m1) # (128 + m2) # (128 + l) # rest)"
    by (simp only: md)
  also have "\<dots> = utf8_decoder (h * 64 + (128 + m1) mod 64) (0 + 1) 3 0x80 0xBF
      ((128 + m2) # (128 + l) # rest)"
    using r2 by (intro dec_cont) simp_all
  also have "\<dots> = utf8_decoder e 1 3 128 191 ((128 + m2) # (128 + l) # rest)"
    by (simp only: cont_mod[OF m1] e) simp
  also have "\<dots> = utf8_decoder (e * 64 + (128 + m2) mod 64) (1 + 1) 3 0x80 0xBF ((128 + l) # rest)"
    using cont_range[OF m2] by (intro dec_cont) simp_all
  also have "\<dots> = utf8_decoder d 2 3 128 191 ((128 + l) # rest)"
    by (simp only: cont_mod[OF m2] d) simp
  also have "\<dots> = (d * 64 + (128 + l) mod 64) # utf8_decoder 0 0 0 0x80 0xBF rest"
    using cont_range[OF l] by (intro dec_last) simp_all
  also have "d * 64 + (128 + l) mod 64 = c" by (simp only: cont_mod[OF l] c)
  finally have main: "utf8_decoder 0 0 0 0x80 0xBF
        ((240 + h) # (128 + m1) # (128 + m2) # (128 + l) # rest)
      = c # utf8_decoder 0 0 0 0x80 0xBF rest" .
  have eq: "[0xF0 + c div 262144, 0x80 + (c div 4096) mod 64, 0x80 + (c div 64) mod 64,
        0x80 + c mod 64] @ rest = (240 + h) # (128 + m1) # (128 + m2) # (128 + l) # rest"
    by (simp add: hc ec m1_def m2_def d_def l_def)
  show ?thesis by (simp only: eq main)
qed

lemma dec_enc_cp:
  assumes "scalar c"
  shows "utf8_decoder 0 0 0 0x80 0xBF (utf8_encode_cp c @ rest) = c # utf8_decoder 0 0 0 0x80 0xBF rest"
proof -
  consider "c < 0x80" | "0x80 \<le> c" "c < 0x800" | "0x800 \<le> c" "c < 0x10000" | "0x10000 \<le> c"
    by linarith
  then show ?thesis
  proof cases
    case 1 then show ?thesis by (simp add: utf8_encode_cp_def)
  next
    case 2
    then have "utf8_encode_cp c = [0xC0 + c div 64, 0x80 + c mod 64]"
      by (simp add: utf8_encode_cp_def)
    then show ?thesis using dec_enc_2[OF 2, of rest] by (simp only:)
  next
    case 3
    then have "utf8_encode_cp c = [0xE0 + c div 4096, 0x80 + (c div 64) mod 64, 0x80 + c mod 64]"
      by (simp add: utf8_encode_cp_def)
    moreover have ns: "\<not> (0xD800 \<le> c \<and> c \<le> 0xDFFF)" using assms by (simp add: scalar_def)
    ultimately show ?thesis using dec_enc_3[OF 3 ns, of rest] by (simp only:)
  next
    case 4
    then have "utf8_encode_cp c = [0xF0 + c div 262144, 0x80 + (c div 4096) mod 64,
        0x80 + (c div 64) mod 64, 0x80 + c mod 64]"
      by (simp add: utf8_encode_cp_def)
    moreover have lt: "c < 0x110000" using assms by (simp add: scalar_def)
    ultimately show ?thesis using dec_enc_4[OF 4 lt, of rest] by (simp only:)
  qed
qed


lemma enc_cp_bytes: "c < 0x110000 \<Longrightarrow> list_all (\<lambda>b. b < 256) (utf8_encode_cp c)"
proof -
  assume c: "c < 0x110000"
  have a: "c mod 64 < 64" "c div 64 mod 64 < 64" "c div 4096 mod 64 < 64" by simp_all
  have b: "c < 0x800 \<Longrightarrow> c div 64 < 32" "c < 0x10000 \<Longrightarrow> c div 4096 < 16" "c div 262144 < 5"
    using c by (simp_all add: div_less_iff_less_mult)
  show ?thesis
    using a b by (auto simp: utf8_encode_cp_def)
qed

lemma dec_enc_list:
  "list_all scalar cs \<Longrightarrow>
   utf8_decoder 0 0 0 0x80 0xBF (concat (map utf8_encode_cp cs) @ rest)
     = cs @ utf8_decoder 0 0 0 0x80 0xBF rest"
  by (induction cs) (simp_all add: dec_enc_cp del: utf8_decoder.simps)

lemma enc_list_bytes:
  "list_all scalar cs \<Longrightarrow> list_all (\<lambda>b. b < 256) (concat (map utf8_encode_cp cs))"
  by (induction cs) (simp_all add: enc_cp_bytes scalar_def)

lemma unat16: "unat (c :: 16 word) < 65536"
  using unsigned_less[of c, where ?'a=nat] by simp

lemma scalar_unit: "\<not> is_high_surrogate c \<Longrightarrow> \<not> is_low_surrogate c \<Longrightarrow> scalar (unat c)"
  using unat16[of c] by (auto simp: scalar_def is_high_surrogate_def is_low_surrogate_def)

lemma scalar_pair: "is_high_surrogate c \<Longrightarrow> is_low_surrogate d \<Longrightarrow>
  scalar (0x10000 + (unat c - 0xD800) * 0x400 + (unat d - 0xDC00))"
  by (auto simp: scalar_def is_high_surrogate_def is_low_surrogate_def)

lemma scalar_replacement: "scalar 0xFFFD"
  by (simp add: scalar_def)

lemma scalar_values: "list_all scalar (to_scalar_values s)"
proof (induction s rule: to_scalar_values.induct)
  case 1 show ?case by simp
next
  case (2 c rest)
  then show ?case
    by (cases rest) (simp_all add: scalar_unit scalar_pair scalar_replacement)
qed

lemma unat_byte_list: "list_all (\<lambda>b. b < 256) bs \<Longrightarrow> map unat (map of_nat bs :: 8 word list) = bs"
  by (induction bs) (simp_all add: unat_of_nat)

lemma decoder_encode:
  "utf8_decoder 0 0 0 0x80 0xBF (map unat (TextEncoder_encode s)) = to_scalar_values s"
proof -
  have "map unat (TextEncoder_encode s) = concat (map utf8_encode_cp (to_scalar_values s))"
    unfolding TextEncoder_encode_def
    by (rule unat_byte_list) (rule enc_list_bytes[OF scalar_values])
  then show ?thesis
    using dec_enc_list[OF scalar_values, of s "[]"] by simp
qed


lemma utf16_unit: "utf16_encode_cp (unat (c :: 16 word)) = [c]"
  using unat16[of c] by (simp add: utf16_encode_cp_def)

lemma utf16_pair:
  assumes "is_high_surrogate c" "is_low_surrogate d"
  shows "utf16_encode_cp (0x10000 + (unat c - 0xD800) * 0x400 + (unat d - 0xDC00)) = [c, d]"
proof -
  define h l where "h = unat c - 0xD800" and "l = unat d - 0xDC00"
  have hc: "0xD800 + h = unat c" using assms by (simp add: h_def is_high_surrogate_def)
  have ld: "0xDC00 + l = unat d" using assms by (simp add: l_def is_low_surrogate_def)
  have l: "l < 0x400" using assms by (auto simp: l_def is_low_surrogate_def)
  have "(h * 0x400 + l) div 0x400 = h" "(h * 0x400 + l) mod 0x400 = l"
    using l by simp_all
  then have "utf16_encode_cp (0x10000 + h * 0x400 + l) = [of_nat (0xD800 + h), of_nat (0xDC00 + l)]"
    by (simp add: utf16_encode_cp_def add.assoc)
  then show ?thesis
    unfolding hc ld by (simp add: h_def l_def)
qed

lemma utf16_roundtrip:
  "isWellFormed s \<Longrightarrow> concat (map utf16_encode_cp (to_scalar_values s)) = s"
proof (induction s rule: to_scalar_values.induct)
  case 1 show ?case by simp
next
  case (2 c rest)
  then show ?case
    by (cases rest) (auto simp: utf16_unit utf16_pair split: if_splits)
qed

lemma strip_bom_values: "strip_bom (to_scalar_values s) = to_scalar_values (drop_bom s)"
proof (cases s)
  case Nil then show ?thesis by (simp add: strip_bom_def drop_bom_def)
next
  case (Cons c rest)
  show ?thesis
  proof (cases "c = 0xFEFF")
    case True
    then show ?thesis using Cons
      by (simp add: strip_bom_def drop_bom_def is_high_surrogate_def is_low_surrogate_def)
  next
    case False
    have "unat c \<noteq> 0xFEFF"
    proof
      assume "unat c = 0xFEFF"
      then have "(of_nat (unat c) :: 16 word) = of_nat 0xFEFF" by (simp only:)
      then show False using False by simp
    qed
    then have "hd (to_scalar_values (c # rest)) \<noteq> 0xFEFF" "to_scalar_values (c # rest) \<noteq> []"
      by (auto split: list.splits)
    then have "strip_bom (to_scalar_values (c # rest)) = to_scalar_values (c # rest)"
      by (cases "to_scalar_values (c # rest)") (auto simp: strip_bom_def)
    then show ?thesis using False Cons by (simp add: drop_bom_def)
  qed
qed

lemma drop_bom_wf: "isWellFormed s \<Longrightarrow> isWellFormed (drop_bom s)"
  by (cases s) (auto simp: drop_bom_def is_high_surrogate_def is_low_surrogate_def)

lemma TextDecoder_TextEncoder:
  "TextDecoder_decode (TextEncoder_encode s) = toWellFormed (drop_bom s)"
  by (simp add: TextDecoder_decode_def decoder_encode strip_bom_values toWellFormed_def)

lemma text_roundtrip: "isWellFormed s \<Longrightarrow> TextDecoder_decode (TextEncoder_encode s) = drop_bom s"
  by (simp add: TextDecoder_TextEncoder toWellFormed_def utf16_roundtrip drop_bom_wf)

section \<open>The service functions, unfolded\<close>

lemmas io_defs = io_return_def io_throw_def io_lift_def io_call_def io_bind_def io_catch_def

lemma decryptMessage_unfold:
  "decryptMessage pf ct nonce key =
     ([Decrypt key nonce ct],
      case decrypt_AES_GCM pf nonce key ct of
        Inl e \<Rightarrow> Inr DECRYPT_FAILED_TEXT
      | Inr decryptedBuffer \<Rightarrow> Inr (TextDecoder_decode decryptedBuffer))"
  by (simp add: decryptMessage_def io_defs split: sum.splits)

lemma readEncryptedPayload_unfold:
  "readEncryptedPayload pf payload peerIdentity key =
     (case base64ToArrayBuffer (encryptedData payload) of
        Inl e \<Rightarrow> ([], Inl e)
      | Inr ct \<Rightarrow>
     (case base64ToArrayBuffer (signature payload) of
        Inl e \<Rightarrow> ([], Inl e)
      | Inr sg \<Rightarrow>
     (case base64ToArrayBuffer (iv payload) of
        Inl e \<Rightarrow> ([], Inl e)
      | Inr nonce \<Rightarrow>
     (case importKey_jwk pf (publicKey peerIdentity) RSA_PSS_SHA256 [UseVerify] of
        Inl e \<Rightarrow> ([ImportKey (publicKey peerIdentity) RSA_PSS_SHA256 [UseVerify]], Inl e)
      | Inr pk \<Rightarrow>
     (case verify_RSA_PSS pf SIGN_ALGORITHM_saltLength pk sg ct of
        Inl e \<Rightarrow>
          ([ImportKey (publicKey peerIdentity) RSA_PSS_SHA256 [UseVerify], Verify pk sg ct], Inl e)
      | Inr isVerified \<Rightarrow>
          if \<not> isVerified then
            ([ImportKey (publicKey peerIdentity) RSA_PSS_SHA256 [UseVerify], Verify pk sg ct],
             Inl (JsError SIGNATURE_INVALID_MESSAGE))
          else
            ([ImportKey (publicKey peerIdentity) RSA_PSS_SHA256 [UseVerify], Verify pk sg ct,
              Decrypt key nonce ct],
             case decrypt_AES_GCM pf nonce key ct of
               Inl e \<Rightarrow> Inr DECRYPT_FAILED_TEXT
             | Inr decryptedBuffer \<Rightarrow> Inr (TextDecoder_decode decryptedBuffer)))))))"
  by (simp add: readEncryptedPayload_def importPublicKey_def verifySignature_def
      decryptMessage_unfold io_defs split: sum.splits)

text \<open>What a successful seal did, and what its envelope decodes to.\<close>

lemma createEncryptedPayload_sealed:
  assumes "createEncryptedPayload pf amb text' localIdentity key = (calls, Inr envelope)"
  shows "\<exists>ct sk sg.
      encrypt_AES_GCM pf (getRandomValues amb 12) key (TextEncoder_encode text') = Inr ct
    \<and> importKey_jwk pf (privateKey localIdentity) RSA_PSS_SHA256 [UseSign] = Inr sk
    \<and> sign_RSA_PSS pf SIGN_ALGORITHM_saltLength sk
         (map (salt_bytes amb) [0..<SIGN_ALGORITHM_saltLength]) ct = Inr sg
    \<and> base64ToArrayBuffer (iv envelope) = Inr (getRandomValues amb 12)
    \<and> base64ToArrayBuffer (encryptedData envelope) = Inr ct
    \<and> base64ToArrayBuffer (signature envelope) = Inr sg
    \<and> senderId envelope = userId localIdentity
    \<and> calls = [Encrypt key (getRandomValues amb 12) (TextEncoder_encode text'),
                ImportKey (privateKey localIdentity) RSA_PSS_SHA256 [UseSign], Sign sk ct]"
proof -
  obtain ct where ct: "encrypt_AES_GCM pf (getRandomValues amb 12) key (TextEncoder_encode text') = Inr ct"
    using assms
    by (cases "encrypt_AES_GCM pf (getRandomValues amb 12) key (TextEncoder_encode text')")
       (simp_all add: createEncryptedPayload_def encryptMessage_def io_defs Let_def)
  obtain sk where sk: "importKey_jwk pf (privateKey localIdentity) RSA_PSS_SHA256 [UseSign] = Inr sk"
    using assms ct
    by (cases "importKey_jwk pf (privateKey localIdentity) RSA_PSS_SHA256 [UseSign]")
       (simp_all add: createEncryptedPayload_def encryptMessage_def importPrivateKey_def io_defs Let_def)
  obtain sg where sg: "sign_RSA_PSS pf SIGN_ALGORITHM_saltLength sk
         (map (salt_bytes amb) [0..<SIGN_ALGORITHM_saltLength]) ct = Inr sg"
    using assms ct sk
    by (cases "sign_RSA_PSS pf SIGN_ALGORITHM_saltLength sk
         (map (salt_bytes amb) [0..<SIGN_ALGORITHM_saltLength]) ct")
       (simp_all add: createEncryptedPayload_def encryptMessage_def importPrivateKey_def
          signData_def io_defs Let_def)
  obtain iv64 where iv64: "arrayBufferToBase64 (getRandomValues amb 12) = Inr iv64"
      "base64ToArrayBuffer iv64 = Inr (getRandomValues amb 12)"
    using base64_roundtrip[of "getRandomValues amb 12"] by blast
  obtain data64 where data64: "arrayBufferToBase64 ct = Inr data64"
      "base64ToArrayBuffer data64 = Inr ct"
    using base64_roundtrip[of ct] by blast
  obtain sig64 where sig64: "arrayBufferToBase64 sg = Inr sig64"
      "base64ToArrayBuffer sig64 = Inr sg"
    using base64_roundtrip[of sg] by blast
  have "createEncryptedPayload pf amb text' localIdentity key =
      ([Encrypt key (getRandomValues amb 12) (TextEncoder_encode text'),
        ImportKey (privateKey localIdentity) RSA_PSS_SHA256 [UseSign], Sign sk ct],
       Inr \<lparr>id' = randomUUID amb, senderId = userId localIdentity, iv = iv64,
        encryptedData = data64, signature = sig64, timestamp = now amb\<rparr>)"
    using ct sk sg iv64(1) data64(1) sig64(1)
    by (simp add: createEncryptedPayload_def encryptMessage_def importPrivateKey_def
          signData_def io_defs Let_def)
  with assms have "envelope = \<lparr>id' = randomUUID amb, senderId = userId localIdentity, iv = iv64,
        encryptedData = data64, signature = sig64, timestamp = now amb\<rparr>"
      and "calls = [Encrypt key (getRandomValues amb 12) (TextEncoder_encode text'),
        ImportKey (privateKey localIdentity) RSA_PSS_SHA256 [UseSign], Sign sk ct]"
    by simp_all
  then show ?thesis using ct sk sg iv64(2) data64(2) sig64(2) by simp
qed

section \<open>Evaluating the test double\<close>

lemmas demo_defs = demo_def demo_importKey_def demo_jwk_def demo_sign_def demo_verify_def
  demo_encrypt_def demo_decrypt_def demo_ambient_def alice_def getPublicIdentity_def
  salt32_def nonce12_def

lemmas codec_defs = arrayBufferToBase64_def base64ToArrayBuffer_def btoa_def atob_def
  forgiving_base64_decode_def strip_padding_def ascii_whitespace_def b64_index_def b64_char_def
  js_def TextEncoder_encode_def TextDecoder_decode_def utf8_encode_cp_def utf16_encode_cp_def
  strip_bom_def is_high_surrogate_def is_low_surrogate_def

lemmas envelope_defs = sealed_hi_def sealed_bom_def tampered_hi_def sealed_invalid_text_def
  short_nonce_hi_def malformed_hi_def

lemma demo_import_alice:
  "importKey_jwk demo (publicKey (getPublicIdentity alice)) RSA_PSS_SHA256 [UseVerify] = Inr 1"
  by (simp add: demo_defs js_def)

lemma decode_nonce12: "base64ToArrayBuffer (js ''BwcHBwcHBwcHBwcH'') = Inr nonce12"
  by (simp add: codec_defs nonce12_def)

lemma decode_signature_hi:
  "base64ToArrayBuffer (js ''BQUFBQUFBQUFBQUFBQUFBQUFBQUFBQUFBQUFBQUFBQVtblo='')
     = Inr (salt32 @ [109, 110, 90])"
  by (simp add: codec_defs salt32_def)

lemma decode_data_hi: "base64ToArrayBuffer (js ''bG1Z'') = Inr [108, 109, 89]"
  by (simp add: codec_defs)

lemma seal_hi:
  "createEncryptedPayload demo demo_ambient (js ''hi'') alice 4 =
     ([Encrypt 4 nonce12 [104, 105], ImportKey (demo_jwk 1) RSA_PSS_SHA256 [UseSign],
       Sign 1 [108, 109, 89]], Inr sealed_hi)"
  by (simp add: createEncryptedPayload_def encryptMessage_def importPrivateKey_def signData_def
      getRandomValues_def SIGN_ALGORITHM_saltLength_def envelope_defs io_defs demo_defs codec_defs
      Let_def upt_rec)

lemma open_hi:
  "readEncryptedPayload demo sealed_hi (getPublicIdentity alice) 4 =
     ([ImportKey (demo_jwk 1) RSA_PSS_SHA256 [UseVerify],
       Verify 1 (salt32 @ [109, 110, 90]) [108, 109, 89], Decrypt 4 nonce12 [108, 109, 89]],
      Inr (js ''hi''))"
proof -
  have pub: "publicKey (getPublicIdentity alice) = demo_jwk 1"
    by (simp add: demo_defs)
  have ok: "verify_RSA_PSS demo SIGN_ALGORITHM_saltLength 1 (salt32 @ [109, 110, 90])
      [108, 109, 89] = Inr True"
    by (simp add: demo_defs SIGN_ALGORITHM_saltLength_def)
  have dec: "decrypt_AES_GCM demo nonce12 4 [108, 109, 89] = Inr [104, 105]"
    by (simp add: demo_defs)
  have decoded: "TextDecoder_decode [104, 105] = js ''hi''"
    by (simp add: codec_defs)
  show ?thesis
    using demo_import_alice decode_nonce12 decode_signature_hi decode_data_hi ok dec decoded
    by (simp add: readEncryptedPayload_unfold envelope_defs pub)
qed

lemma demo_key_pair: "matching_key_pair demo alice"
  by (auto simp: matching_key_pair_def demo_defs js_def)

lemma demo_aead_key: "aead_key demo k"
  by (auto simp: aead_key_def demo_defs comp_def)

lemma demo_parse_alice: "JSON_parse demo (js ''alice'') = Inr (demo_peer ''alice'' 1)"
  by (simp add: demo_def demo_parse_def)

lemma demo_peer_fields: "peer_fields_present (demo_peer name k) = Inr (name \<noteq> [])"
  by (simp add: peer_fields_present_def demo_peer_def demo_jwk_def js_def)

lemma demo_peer_userId: "js_get (demo_peer name k) (js ''userId'') = Inr (Some (JStr (js name)))"
  by (simp add: demo_peer_def)

lemma demo_parse_bob: "JSON_parse demo (js ''bob'') = Inr (demo_peer ''bob'' 2)"
  by (simp add: demo_def demo_parse_def js_def)

lemma demo_parse_carol: "JSON_parse demo (js ''carol'') = Inr (demo_peer ''carol'' 3)"
  by (simp add: demo_def demo_parse_def js_def)

lemma userId_not_alice:
  "js_get (demo_peer ''bob'' 2) (js ''userId'') \<noteq> Inr (Some (JStr (userId alice)))"
  "js_get (demo_peer ''carol'' 3) (js ''userId'') \<noteq> Inr (Some (JStr (userId alice)))"
  by (simp_all add: demo_peer_userId alice_def) (simp_all add: js_def)

section \<open>C1: sealing and opening\<close>

text \<open>
  Claim C1, as amended. For every plaintext string, every identity with a matching
  public/private JWK pair and every AES-GCM session key: opening the envelope sealed
  from the plaintext, with the identity's public part as claimed sender and the same
  key, returns the plaintext with a leading U+FEFF dropped and every unpaired surrogate
  replaced by U+FFFD. It returns exactly the plaintext when the plaintext is well formed
  (has no unpaired surrogate) and does not begin with U+FEFF.
\<close>

theorem seal_open_roundtrip:
  assumes seal: "createEncryptedPayload pf amb text' identity key = (calls, Inr envelope)"
    and pair: "matching_key_pair pf identity"
    and aead: "aead_key pf key"
  shows "snd (readEncryptedPayload pf envelope (getPublicIdentity identity) key)
           = Inr (toWellFormed (drop_bom text'))
    \<and> (isWellFormed text' \<and> take 1 text' \<noteq> [0xFEFF]
         \<longrightarrow> snd (readEncryptedPayload pf envelope (getPublicIdentity identity) key) = Inr text')"
proof -
  from createEncryptedPayload_sealed[OF seal] obtain ct sk sg where
    enc: "encrypt_AES_GCM pf (getRandomValues amb 12) key (TextEncoder_encode text') = Inr ct"
    and sk: "importKey_jwk pf (privateKey identity) RSA_PSS_SHA256 [UseSign] = Inr sk"
    and sg: "sign_RSA_PSS pf SIGN_ALGORITHM_saltLength sk
         (map (salt_bytes amb) [0..<SIGN_ALGORITHM_saltLength]) ct = Inr sg"
    and fields: "base64ToArrayBuffer (iv envelope) = Inr (getRandomValues amb 12)"
      "base64ToArrayBuffer (encryptedData envelope) = Inr ct"
      "base64ToArrayBuffer (signature envelope) = Inr sg"
    by blast
  from pair sk sg obtain pk where
    pk: "importKey_jwk pf (publicKey identity) RSA_PSS_SHA256 [UseVerify] = Inr pk"
    and ok: "verify_RSA_PSS pf SIGN_ALGORITHM_saltLength pk sg ct = Inr True"
    unfolding matching_key_pair_def by blast
  from aead enc have
    dec: "decrypt_AES_GCM pf (getRandomValues amb 12) key ct = Inr (TextEncoder_encode text')"
    unfolding aead_key_def by blast
  have res: "snd (readEncryptedPayload pf envelope (getPublicIdentity identity) key)
      = Inr (TextDecoder_decode (TextEncoder_encode text'))"
    using fields pk ok dec
    by (simp add: readEncryptedPayload_unfold getPublicIdentity_def)
  have general: "snd (readEncryptedPayload pf envelope (getPublicIdentity identity) key)
      = Inr (toWellFormed (drop_bom text'))"
    by (simp only: res TextDecoder_TextEncoder)
  have exact: "snd (readEncryptedPayload pf envelope (getPublicIdentity identity) key) = Inr text'"
    if wf: "isWellFormed text'" and nb: "take 1 text' \<noteq> [0xFEFF]"
  proof -
    have "drop_bom text' = text'"
      using nb by (cases text') (simp_all add: drop_bom_def)
    then show ?thesis
      using text_roundtrip[OF wf] by (simp add: res)
  qed
  show ?thesis using general exact by blast
qed

lemma wf_hi: "isWellFormed (js ''hi'')"
  by (simp add: js_def is_high_surrogate_def is_low_surrogate_def)

theorem seal_open_roundtrip_witness:
  "isWellFormed (js ''hi'') \<and> take 1 (js ''hi'') \<noteq> [0xFEFF]
   \<and> snd (createEncryptedPayload demo demo_ambient (js ''hi'') alice 4) = Inr sealed_hi
   \<and> snd (readEncryptedPayload demo sealed_hi (getPublicIdentity alice) 4) = Inr (js ''hi'')"
proof -
  have nb: "take 1 (js ''hi'') \<noteq> [0xFEFF]" by (simp add: js_def)
  from seal_open_roundtrip[OF seal_hi demo_key_pair demo_aead_key] wf_hi nb
  have "snd (readEncryptedPayload demo sealed_hi (getPublicIdentity alice) 4) = Inr (js ''hi'')"
    by blast
  then show ?thesis using wf_hi nb seal_hi by simp
qed

text \<open>
  The claim as stated fails: \<open>alice\<close> seals the three-character text U+FEFF \<open>hi\<close>
  under key 4, and opening it with her public identity and key 4 returns \<open>hi\<close>.
\<close>

lemma seal_bom:
  "createEncryptedPayload demo demo_ambient [0xFEFF, 0x68, 0x69] alice 4 =
     ([Encrypt 4 nonce12 [239, 187, 191, 104, 105], ImportKey (demo_jwk 1) RSA_PSS_SHA256 [UseSign],
       Sign 1 [243, 191, 195, 108, 109, 89]], Inr sealed_bom)"
  by (simp add: createEncryptedPayload_def encryptMessage_def importPrivateKey_def signData_def
      getRandomValues_def SIGN_ALGORITHM_saltLength_def envelope_defs io_defs demo_defs codec_defs
      Let_def upt_rec)

theorem roundtrip_counterexample:
  "matching_key_pair demo alice \<and> aead_key demo 4
   \<and> snd (createEncryptedPayload demo demo_ambient [0xFEFF, 0x68, 0x69] alice 4) = Inr sealed_bom
   \<and> snd (readEncryptedPayload demo sealed_bom (getPublicIdentity alice) 4) = Inr [0x68, 0x69]
   \<and> snd (readEncryptedPayload demo sealed_bom (getPublicIdentity alice) 4)
        \<noteq> Inr [0xFEFF, 0x68, 0x69]"
proof -
  have a: "base64ToArrayBuffer (encryptedData sealed_bom) = Inr [243, 191, 195, 108, 109, 89]"
    by (simp add: envelope_defs codec_defs)
  have b: "base64ToArrayBuffer (signature sealed_bom)
      = Inr (salt32 @ [244, 192, 196, 109, 110, 90])"
    by (simp add: envelope_defs codec_defs salt32_def)
  have c: "base64ToArrayBuffer (iv sealed_bom) = Inr nonce12"
    using decode_nonce12 by (simp add: envelope_defs)
  have ok: "verify_RSA_PSS demo SIGN_ALGORITHM_saltLength 1
      (salt32 @ [244, 192, 196, 109, 110, 90]) [243, 191, 195, 108, 109, 89] = Inr True"
    by (simp add: demo_defs SIGN_ALGORITHM_saltLength_def)
  have dec: "decrypt_AES_GCM demo nonce12 4 [243, 191, 195, 108, 109, 89]
      = Inr [239, 187, 191, 104, 105]"
    by (simp add: demo_defs)
  have decoded: "TextDecoder_decode [239, 187, 191, 104, 105] = [0x68, 0x69]"
    by (simp add: codec_defs)
  have "snd (readEncryptedPayload demo sealed_bom (getPublicIdentity alice) 4) = Inr [0x68, 0x69]"
    using a b c demo_import_alice ok dec decoded
    by (simp add: readEncryptedPayload_unfold)
  then show ?thesis
    using demo_key_pair demo_aead_key seal_bom by simp
qed

section \<open>C2: verification comes before decryption\<close>

text \<open>
  Claim C2. For every envelope, claimed sender and session key, \<open>readEncryptedPayload\<close>
  verifies the signature over the ciphertext with the claimed sender's public key before
  it decrypts. Whenever a \<open>Decrypt\<close> call is made, the calls of the run are exactly the
  import of the claimed sender's public key, a \<open>Verify\<close> of the decoded signature over
  the decoded ciphertext that returned \<open>true\<close>, and then that \<open>Decrypt\<close> of the same
  ciphertext. Whenever verification returns \<open>false\<close>, the run ends there with the
  error "Message signature is invalid! The sender's identity could not be verified." and
  no \<open>Decrypt\<close> call is made.
\<close>

theorem readEncryptedPayload_verify_then_decrypt:
  assumes run: "readEncryptedPayload pf payload peerIdentity sharedKey' = (calls, result)"
  shows "(\<forall>key nonce ct. Decrypt key nonce ct \<in> set calls \<longrightarrow>
            (\<exists>pk sg. importKey_jwk pf (publicKey peerIdentity) RSA_PSS_SHA256 [UseVerify] = Inr pk
               \<and> base64ToArrayBuffer (signature payload) = Inr sg
               \<and> base64ToArrayBuffer (encryptedData payload) = Inr ct
               \<and> verify_RSA_PSS pf SIGN_ALGORITHM_saltLength pk sg ct = Inr True
               \<and> calls = [ImportKey (publicKey peerIdentity) RSA_PSS_SHA256 [UseVerify],
                            Verify pk sg ct, Decrypt key nonce ct]))
      \<and> (\<forall>pk sg ct nonce.
            importKey_jwk pf (publicKey peerIdentity) RSA_PSS_SHA256 [UseVerify] = Inr pk
            \<and> base64ToArrayBuffer (signature payload) = Inr sg
            \<and> base64ToArrayBuffer (encryptedData payload) = Inr ct
            \<and> base64ToArrayBuffer (iv payload) = Inr nonce
            \<and> verify_RSA_PSS pf SIGN_ALGORITHM_saltLength pk sg ct = Inr False
            \<longrightarrow> result = Inl (JsError SIGNATURE_INVALID_MESSAGE)
                \<and> calls = [ImportKey (publicKey peerIdentity) RSA_PSS_SHA256 [UseVerify],
                            Verify pk sg ct])"
  using run
  by (auto simp: readEncryptedPayload_unfold split: sum.splits if_splits)

text \<open>
  On the test double: the envelope \<open>alice\<close> sealed is verified and then decrypted, and
  the one whose ciphertext is not the signed one is refused with the signature error
  after the key import and the verification, and nothing else.
\<close>

theorem readEncryptedPayload_verify_then_decrypt_witness:
  "Decrypt 4 nonce12 [108, 109, 89]
     \<in> set (fst (readEncryptedPayload demo sealed_hi (getPublicIdentity alice) 4))
   \<and> fst (readEncryptedPayload demo sealed_hi (getPublicIdentity alice) 4)
     = [ImportKey (demo_jwk 1) RSA_PSS_SHA256 [UseVerify],
        Verify 1 (salt32 @ [109, 110, 90]) [108, 109, 89], Decrypt 4 nonce12 [108, 109, 89]]
   \<and> snd (readEncryptedPayload demo tampered_hi (getPublicIdentity alice) 4)
     = Inl (JsError SIGNATURE_INVALID_MESSAGE)
   \<and> fst (readEncryptedPayload demo tampered_hi (getPublicIdentity alice) 4)
     = [ImportKey (demo_jwk 1) RSA_PSS_SHA256 [UseVerify],
        Verify 1 (salt32 @ [109, 110, 90]) [108, 110, 89]]"
proof -
  have pub: "publicKey (getPublicIdentity alice) = demo_jwk 1"
    by (simp add: demo_defs)
  have run_ok: "readEncryptedPayload demo sealed_hi (getPublicIdentity alice) 4
      = (fst (readEncryptedPayload demo sealed_hi (getPublicIdentity alice) 4),
         snd (readEncryptedPayload demo sealed_hi (getPublicIdentity alice) 4))"
    by simp
  have made: "Decrypt 4 nonce12 [108, 109, 89]
     \<in> set (fst (readEncryptedPayload demo sealed_hi (getPublicIdentity alice) 4))"
    by (simp add: open_hi)
  from readEncryptedPayload_verify_then_decrypt[OF run_ok] made
  obtain pk sg where
    "importKey_jwk demo (publicKey (getPublicIdentity alice)) RSA_PSS_SHA256 [UseVerify] = Inr pk"
    "base64ToArrayBuffer (signature sealed_hi) = Inr sg"
    "fst (readEncryptedPayload demo sealed_hi (getPublicIdentity alice) 4)
       = [ImportKey (publicKey (getPublicIdentity alice)) RSA_PSS_SHA256 [UseVerify],
          Verify pk sg [108, 109, 89], Decrypt 4 nonce12 [108, 109, 89]]"
    by blast
  then have first: "fst (readEncryptedPayload demo sealed_hi (getPublicIdentity alice) 4)
     = [ImportKey (demo_jwk 1) RSA_PSS_SHA256 [UseVerify],
        Verify 1 (salt32 @ [109, 110, 90]) [108, 109, 89], Decrypt 4 nonce12 [108, 109, 89]]"
    using demo_import_alice decode_signature_hi by (simp add: pub envelope_defs)
  have run: "readEncryptedPayload demo tampered_hi (getPublicIdentity alice) 4
      = (fst (readEncryptedPayload demo tampered_hi (getPublicIdentity alice) 4),
         snd (readEncryptedPayload demo tampered_hi (getPublicIdentity alice) 4))"
    by simp
  have data: "base64ToArrayBuffer (encryptedData tampered_hi) = Inr [108, 110, 89]"
    by (simp add: envelope_defs codec_defs)
  have sg: "base64ToArrayBuffer (signature tampered_hi) = Inr (salt32 @ [109, 110, 90])"
    using decode_signature_hi by (simp add: envelope_defs)
  have nonce: "base64ToArrayBuffer (iv tampered_hi) = Inr nonce12"
    using decode_nonce12 by (simp add: envelope_defs)
  have rejected: "verify_RSA_PSS demo SIGN_ALGORITHM_saltLength 1 (salt32 @ [109, 110, 90])
      [108, 110, 89] = Inr False"
    by (simp add: demo_defs SIGN_ALGORITHM_saltLength_def)
  have second: "snd (readEncryptedPayload demo tampered_hi (getPublicIdentity alice) 4)
       = Inl (JsError SIGNATURE_INVALID_MESSAGE)
     \<and> fst (readEncryptedPayload demo tampered_hi (getPublicIdentity alice) 4)
       = [ImportKey (demo_jwk 1) RSA_PSS_SHA256 [UseVerify],
          Verify 1 (salt32 @ [109, 110, 90]) [108, 110, 89]]"
    using readEncryptedPayload_verify_then_decrypt[OF run] demo_import_alice data sg nonce rejected
    by (simp add: pub)
  show ?thesis using made first second by blast
qed

section \<open>C4: opening with another session key\<close>

text \<open>
  Claim C4, as amended. For every plaintext, identity with a matching key pair, and two
  session keys such that the platform's AES-GCM decryption under the second, with the
  nonce of the envelope, rejects the one ciphertext the first made of the plaintext:
  opening the envelope sealed under the first key with the second does not fail.
  Nothing is asked of the two keys on any other nonce or ciphertext. Signature
  verification succeeds first (the signature does not depend on the session key),
  decryption of that ciphertext is attempted, and \<open>readEncryptedPayload\<close> returns, as
  its result, the fixed text "Could not decrypt message. Key might be wrong or message
  corrupted." behind a warning sign. That text is not empty, so the outcome differs from
  a successfully decrypted empty string.
\<close>

theorem wrong_key_returns_warning_text:
  assumes seal: "createEncryptedPayload pf amb text' identity key1 = (calls, Inr envelope)"
    and pair: "matching_key_pair pf identity"
    and enc: "encrypt_AES_GCM pf (getRandomValues amb 12) key1 (TextEncoder_encode text') = Inr ct"
    and wrong: "decrypt_AES_GCM pf (getRandomValues amb 12) key2 ct = Inl e"
  shows "\<exists>pk sg.
      readEncryptedPayload pf envelope (getPublicIdentity identity) key2
        = ([ImportKey (publicKey identity) RSA_PSS_SHA256 [UseVerify], Verify pk sg ct,
            Decrypt key2 (getRandomValues amb 12) ct], Inr DECRYPT_FAILED_TEXT)
    \<and> verify_RSA_PSS pf SIGN_ALGORITHM_saltLength pk sg ct = Inr True
    \<and> base64ToArrayBuffer (encryptedData envelope) = Inr ct
    \<and> DECRYPT_FAILED_TEXT \<noteq> []"
proof -
  from createEncryptedPayload_sealed[OF seal] obtain ct' sk sg where
    enc': "encrypt_AES_GCM pf (getRandomValues amb 12) key1 (TextEncoder_encode text') = Inr ct'"
    and sk: "importKey_jwk pf (privateKey identity) RSA_PSS_SHA256 [UseSign] = Inr sk"
    and sg: "sign_RSA_PSS pf SIGN_ALGORITHM_saltLength sk
         (map (salt_bytes amb) [0..<SIGN_ALGORITHM_saltLength]) ct' = Inr sg"
    and fields': "base64ToArrayBuffer (iv envelope) = Inr (getRandomValues amb 12)"
      "base64ToArrayBuffer (encryptedData envelope) = Inr ct'"
      "base64ToArrayBuffer (signature envelope) = Inr sg"
    by blast
  from enc enc' have same: "ct' = ct" by simp
  note fields = fields'[unfolded same]
  from pair sk sg[unfolded same] obtain pk where
    pk: "importKey_jwk pf (publicKey identity) RSA_PSS_SHA256 [UseVerify] = Inr pk"
    and ok: "verify_RSA_PSS pf SIGN_ALGORITHM_saltLength pk sg ct = Inr True"
    unfolding matching_key_pair_def by blast
  have run: "readEncryptedPayload pf envelope (getPublicIdentity identity) key2
        = ([ImportKey (publicKey identity) RSA_PSS_SHA256 [UseVerify], Verify pk sg ct,
            Decrypt key2 (getRandomValues amb 12) ct], Inr DECRYPT_FAILED_TEXT)"
    using fields pk ok wrong
    by (simp add: readEncryptedPayload_unfold getPublicIdentity_def)
  have nonempty: "DECRYPT_FAILED_TEXT \<noteq> []"
    by (simp add: DECRYPT_FAILED_TEXT_def)
  show ?thesis
    by (rule exI[of _ pk], rule exI[of _ sg], intro conjI run ok fields(2) nonempty)
qed

text \<open>
  On the test double: \<open>alice\<close> seals \<open>hi\<close> under key 4, the ciphertext is the bytes
  108, 109, 89, and key 6 rejects it.
\<close>

theorem wrong_key_returns_warning_text_witness:
  "encrypt_AES_GCM demo (getRandomValues demo_ambient 12) 4 (TextEncoder_encode (js ''hi''))
      = Inr [108, 109, 89]
   \<and> decrypt_AES_GCM demo (getRandomValues demo_ambient 12) 6 [108, 109, 89]
      = Inl (DOMException ''OperationError'')
   \<and> (\<exists>pk sg.
      readEncryptedPayload demo sealed_hi (getPublicIdentity alice) 6
        = ([ImportKey (publicKey alice) RSA_PSS_SHA256 [UseVerify], Verify pk sg [108, 109, 89],
            Decrypt 6 (getRandomValues demo_ambient 12) [108, 109, 89]], Inr DECRYPT_FAILED_TEXT)
    \<and> verify_RSA_PSS demo SIGN_ALGORITHM_saltLength pk sg [108, 109, 89] = Inr True
    \<and> base64ToArrayBuffer (encryptedData sealed_hi) = Inr [108, 109, 89]
    \<and> DECRYPT_FAILED_TEXT \<noteq> [])"
proof -
  have enc: "encrypt_AES_GCM demo (getRandomValues demo_ambient 12) 4 (TextEncoder_encode (js ''hi''))
      = Inr [108, 109, 89]"
    by (simp add: getRandomValues_def demo_defs codec_defs upt_rec)
  have wrong: "decrypt_AES_GCM demo (getRandomValues demo_ambient 12) 6 [108, 109, 89]
      = Inl (DOMException ''OperationError'')"
    by (simp add: getRandomValues_def demo_defs upt_rec)
  show ?thesis
    by (rule conjI[OF enc conjI[OF wrong
          wrong_key_returns_warning_text[OF seal_hi demo_key_pair enc wrong]]])
qed

text \<open>
  The claim as stated fails: \<open>alice\<close> seals \<open>hi\<close> under key 4, and opening with
  key 6 returns a string, not an error.
\<close>

theorem wrong_key_counterexample:
  "snd (createEncryptedPayload demo demo_ambient (js ''hi'') alice 4) = Inr sealed_hi
   \<and> (4 :: 8 word) \<noteq> 6
   \<and> snd (readEncryptedPayload demo sealed_hi (getPublicIdentity alice) 6) = Inr DECRYPT_FAILED_TEXT
   \<and> \<not> isl (snd (readEncryptedPayload demo sealed_hi (getPublicIdentity alice) 6))"
proof -
  have "snd (readEncryptedPayload demo sealed_hi (getPublicIdentity alice) 6) = Inr DECRYPT_FAILED_TEXT"
    using demo_import_alice decode_nonce12 decode_signature_hi decode_data_hi
    by (simp add: readEncryptedPayload_unfold envelope_defs)
       (simp add: demo_defs SIGN_ALGORITHM_saltLength_def)
  then show ?thesis using seal_hi by simp
qed

section \<open>C5: malformed envelopes\<close>

lemma atob_error: "isl (atob s) \<Longrightarrow> atob s = Inl (DOMException ''InvalidCharacterError'')"
  by (simp add: atob_def split: option.splits)

lemma base64ToArrayBuffer_error:
  "isl (atob s) \<Longrightarrow> base64ToArrayBuffer s = Inl (DOMException ''InvalidCharacterError'')"
  by (simp add: base64ToArrayBuffer_def atob_error)

lemma base64ToArrayBuffer_cases:
  "base64ToArrayBuffer s = Inl (DOMException ''InvalidCharacterError'')
   \<or> (\<exists>b. base64ToArrayBuffer s = Inr b)"
  by (simp add: base64ToArrayBuffer_def atob_def split: option.splits)

text \<open>
  Claim C5, as amended. For every envelope whose \<open>iv\<close>, \<open>encryptedData\<close> or
  \<open>signature\<close> field is rejected by \<open>atob\<close> (it is no base64 in the forgiving sense
  of the platform), \<open>readEncryptedPayload\<close> fails with \<open>atob\<close>'s
  \<open>InvalidCharacterError\<close> before any key import, verification or decryption: the run
  makes no platform call. (The length of the decoded nonce is examined nowhere; the
  counterexample below runs with a nonce of three bytes.)
\<close>

theorem malformed_base64_fails_before_crypto:
  assumes "isl (atob (iv payload)) \<or> isl (atob (encryptedData payload))
           \<or> isl (atob (signature payload))"
  shows "readEncryptedPayload pf payload peerIdentity key
           = ([], Inl (DOMException ''InvalidCharacterError''))"
proof -
  consider (data) "isl (atob (encryptedData payload))"
    | (sg) "isl (atob (signature payload))"
    | (nonce) "isl (atob (iv payload))"
    using assms by blast
  then show ?thesis
  proof cases
    case data
    then show ?thesis
      by (simp add: readEncryptedPayload_unfold base64ToArrayBuffer_error)
  next
    case sg
    then show ?thesis
      using base64ToArrayBuffer_cases[of "encryptedData payload"]
      by (auto simp: readEncryptedPayload_unfold base64ToArrayBuffer_error)
  next
    case nonce
    then show ?thesis
      using base64ToArrayBuffer_cases[of "encryptedData payload"]
        base64ToArrayBuffer_cases[of "signature payload"]
      by (auto simp: readEncryptedPayload_unfold base64ToArrayBuffer_error)
  qed
qed

theorem malformed_base64_fails_before_crypto_witness:
  "isl (atob (iv malformed_hi))
   \<and> readEncryptedPayload demo malformed_hi (getPublicIdentity alice) 4
       = ([], Inl (DOMException ''InvalidCharacterError''))"
proof -
  have bad: "isl (atob (iv malformed_hi))"
    by (simp add: envelope_defs codec_defs)
  then have "isl (atob (iv malformed_hi)) \<or> isl (atob (encryptedData malformed_hi))
           \<or> isl (atob (signature malformed_hi))" by simp
  from malformed_base64_fails_before_crypto[OF this, of demo "getPublicIdentity alice" 4] bad
  show ?thesis by simp
qed

text \<open>
  On every platform, an envelope whose three fields decode reaches the verification,
  whatever the length of its nonce.
\<close>

lemma nonce_length_is_not_checked:
  assumes "base64ToArrayBuffer (encryptedData payload) = Inr ct"
    and "base64ToArrayBuffer (signature payload) = Inr sg"
    and "base64ToArrayBuffer (iv payload) = Inr nonce"
    and "importKey_jwk pf (publicKey peerIdentity) RSA_PSS_SHA256 [UseVerify] = Inr pk"
  shows "Verify pk sg ct \<in> set (fst (readEncryptedPayload pf payload peerIdentity key))"
  using assms by (simp add: readEncryptedPayload_unfold split: sum.splits)

text \<open>
  The claim as stated fails on the nonce length: the envelope \<open>short_nonce_hi\<close> has a
  nonce of three bytes, and the run still imports the key, verifies the signature and
  calls the decryption with that nonce.
\<close>

theorem short_nonce_counterexample:
  "base64ToArrayBuffer (iv short_nonce_hi) = Inr [7, 7, 7]
   \<and> fst (readEncryptedPayload demo short_nonce_hi (getPublicIdentity alice) 4)
       = [ImportKey (demo_jwk 1) RSA_PSS_SHA256 [UseVerify],
          Verify 1 (salt32 @ [109, 110, 90]) [108, 109, 89],
          Decrypt 4 [7, 7, 7] [108, 109, 89]]
   \<and> snd (readEncryptedPayload demo short_nonce_hi (getPublicIdentity alice) 4)
       = Inr DECRYPT_FAILED_TEXT"
proof -
  have nonce: "base64ToArrayBuffer (js ''BwcH'') = Inr [7, 7, 7]"
    by (simp add: codec_defs)
  have pub: "publicKey (getPublicIdentity alice) = demo_jwk 1"
    by (simp add: demo_defs)
  have ok: "verify_RSA_PSS demo SIGN_ALGORITHM_saltLength 1 (salt32 @ [109, 110, 90])
      [108, 109, 89] = Inr True"
    by (simp add: demo_defs SIGN_ALGORITHM_saltLength_def)
  have rej: "decrypt_AES_GCM demo [7, 7, 7] 4 [108, 109, 89] = Inl (DOMException ''OperationError'')"
    by (simp add: demo_defs)
  show ?thesis
    using demo_import_alice nonce decode_signature_hi decode_data_hi ok rej
    by (simp add: readEncryptedPayload_unfold envelope_defs pub)
qed

section \<open>C6: the decrypted bytes as text\<close>

text \<open>
  Claim C6, as amended. For every successfully verified and decrypted envelope,
  \<open>readEncryptedPayload\<close> returns \<open>TextDecoder.decode\<close> of the decrypted bytes. It
  never fails with an encoding error: the decoder is not fatal, so bytes that are not
  valid UTF-8 come back as a string with U+FFFD in place of each malformed sequence.
\<close>

theorem decrypted_bytes_are_decoded_leniently:
  assumes "base64ToArrayBuffer (encryptedData payload) = Inr ct"
    and "base64ToArrayBuffer (signature payload) = Inr sg"
    and "base64ToArrayBuffer (iv payload) = Inr nonce"
    and "importKey_jwk pf (publicKey peerIdentity) RSA_PSS_SHA256 [UseVerify] = Inr pk"
    and "verify_RSA_PSS pf SIGN_ALGORITHM_saltLength pk sg ct = Inr True"
    and "decrypt_AES_GCM pf nonce key ct = Inr decryptedBuffer"
  shows "readEncryptedPayload pf payload peerIdentity key
           = ([ImportKey (publicKey peerIdentity) RSA_PSS_SHA256 [UseVerify], Verify pk sg ct,
               Decrypt key nonce ct], Inr (TextDecoder_decode decryptedBuffer))"
  using assms by (simp add: readEncryptedPayload_unfold)

lemma decode_data_invalid: "base64ToArrayBuffer (js ''/1k='') = Inr [255, 89]"
  by (simp add: codec_defs)

lemma decode_signature_invalid:
  "base64ToArrayBuffer (js ''BQUFBQUFBQUFBQUFBQUFBQUFBQUFBQUFBQUFBQUFBQUAWg=='')
     = Inr (salt32 @ [0, 90])"
  by (simp add: codec_defs salt32_def)

lemma demo_verify_invalid:
  "verify_RSA_PSS demo SIGN_ALGORITHM_saltLength 1 (salt32 @ [0, 90]) [255, 89] = Inr True"
  by (simp add: demo_defs SIGN_ALGORITHM_saltLength_def)

lemma demo_decrypt_invalid: "decrypt_AES_GCM demo nonce12 4 [255, 89] = Inr [0xFB]"
  by (simp add: demo_defs)

lemma decode_FB: "TextDecoder_decode [0xFB] = [0xFFFD]"
  by (simp add: codec_defs)

theorem decrypted_bytes_are_decoded_leniently_witness:
  "readEncryptedPayload demo sealed_invalid_text (getPublicIdentity alice) 4
     = ([ImportKey (publicKey (getPublicIdentity alice)) RSA_PSS_SHA256 [UseVerify],
         Verify 1 (salt32 @ [0, 90]) [255, 89], Decrypt 4 nonce12 [255, 89]],
        Inr (TextDecoder_decode [0xFB]))"
proof -
  have a: "base64ToArrayBuffer (encryptedData sealed_invalid_text) = Inr [255, 89]"
    using decode_data_invalid by (simp add: envelope_defs)
  have b: "base64ToArrayBuffer (signature sealed_invalid_text) = Inr (salt32 @ [0, 90])"
    using decode_signature_invalid by (simp add: envelope_defs)
  have c: "base64ToArrayBuffer (iv sealed_invalid_text) = Inr nonce12"
    using decode_nonce12 by (simp add: envelope_defs)
  show ?thesis
    by (rule decrypted_bytes_are_decoded_leniently
          [OF a b c demo_import_alice demo_verify_invalid demo_decrypt_invalid])
qed

text \<open>
  The claim as stated fails: the envelope \<open>sealed_invalid_text\<close> verifies and decrypts
  to the single byte FB, which is the UTF-8 encoding of no string, and the run returns
  the one-character string U+FFFD instead of failing.
\<close>

lemma FB_is_no_text: "TextEncoder_encode s \<noteq> [0xFB]"
proof
  assume enc: "TextEncoder_encode s = [0xFB]"
  have "utf8_decoder 0 0 0 0x80 0xBF (map unat (TextEncoder_encode s)) = [0xFFFD]"
    by (simp add: enc)
  then have "to_scalar_values s = [0xFFFD]"
    by (simp only: decoder_encode)
  then have "TextEncoder_encode s = [0xEF, 0xBF, 0xBD]"
    by (simp add: TextEncoder_encode_def utf8_encode_cp_def)
  with enc show False by simp
qed

theorem invalid_text_counterexample:
  "decrypt_AES_GCM demo nonce12 4 [255, 89] = Inr [0xFB]
   \<and> \<not> (\<exists>s. TextEncoder_encode s = [0xFB])
   \<and> snd (readEncryptedPayload demo sealed_invalid_text (getPublicIdentity alice) 4)
       = Inr [0xFFFD]
   \<and> \<not> isl (snd (readEncryptedPayload demo sealed_invalid_text (getPublicIdentity alice) 4))"
proof -
  have a: "base64ToArrayBuffer (encryptedData sealed_invalid_text) = Inr [255, 89]"
    using decode_data_invalid by (simp add: envelope_defs)
  have b: "base64ToArrayBuffer (signature sealed_invalid_text) = Inr (salt32 @ [0, 90])"
    using decode_signature_invalid by (simp add: envelope_defs)
  have c: "base64ToArrayBuffer (iv sealed_invalid_text) = Inr nonce12"
    using decode_nonce12 by (simp add: envelope_defs)
  have "snd (readEncryptedPayload demo sealed_invalid_text (getPublicIdentity alice) 4)
       = Inr [0xFFFD]"
    using a b c demo_import_alice demo_verify_invalid demo_decrypt_invalid decode_FB
    by (simp add: readEncryptedPayload_unfold)
  then show ?thesis
    using demo_decrypt_invalid FB_is_no_text by simp
qed

section \<open>The public-key fingerprint\<close>

lemma padded_hex: "padStart 2 48 (toString16 b) = hex_byte b"
proof (cases "unat b < 16")
  case True
  then show ?thesis
    by (simp add: padStart_def toString16_def hex_byte_def hex_digit_def)
next
  case False
  then show ?thesis
    by (simp add: padStart_def toString16_def hex_byte_def)
qed

lemma hex_length: "length (hex bs) = 2 * length bs"
  by (induction bs) (simp_all add: hex_def hex_byte_def)

lemma unat_small: "n < 65536 \<Longrightarrow> unat (of_nat n :: 16 word) = n"
  by (simp add: unat_of_nat)

lemma upper_hex_digit:
  assumes "d < 16"
  shows "upper_hex_char (if 97 \<le> unat (hex_digit d) \<and> unat (hex_digit d) \<le> 122
     then hex_digit d - 32 else hex_digit d)"
proof (cases "d < 10")
  case True
  then have "unat (hex_digit d) = 48 + d"
    using unat_small[of "48 + d"] by (simp add: hex_digit_def del: of_nat_add)
  then show ?thesis using True by (simp add: upper_hex_char_def)
next
  case False
  then have low: "unat (hex_digit d) = 87 + d"
    using assms unat_small[of "87 + d"] by (simp add: hex_digit_def del: of_nat_add)
  have "hex_digit d = of_nat (55 + d) + 32"
    using False by (simp add: hex_digit_def)
  then have "hex_digit d - 32 = of_nat (55 + d)" by simp
  then have "unat (hex_digit d - 32) = 55 + d"
    using assms unat_small[of "55 + d"] by (simp del: of_nat_add)
  then show ?thesis using False assms low by (simp add: upper_hex_char_def)
qed

lemma upper_hex_byte: "list_all upper_hex_char (toUpperCase (hex_byte b))"
proof -
  have "unat b < 256" using unsigned_less[of b, where ?'a=nat] by simp
  then have "unat b div 16 < 16" by (simp add: less_mult_imp_div_less)
  moreover have "unat b mod 16 < 16" by simp
  ultimately show ?thesis
    by (simp add: toUpperCase_def hex_byte_def upper_hex_digit del: unsigned_less)
qed

lemma toUpperCase_append: "toUpperCase (xs @ ys) = toUpperCase xs @ toUpperCase ys"
  by (simp add: toUpperCase_def)

lemma toUpperCase_take: "toUpperCase (take n xs) = take n (toUpperCase xs)"
  by (simp add: toUpperCase_def take_map)

lemma upper_hex_all: "list_all upper_hex_char (toUpperCase (hex bs))"
proof (induction bs)
  case Nil
  show ?case by (simp add: hex_def toUpperCase_def)
next
  case (Cons b bs)
  have "hex (b # bs) = hex_byte b @ hex bs" by (simp add: hex_def)
  then show ?case using Cons upper_hex_byte[of b] by (simp add: toUpperCase_append)
qed

lemma list_all_take: "list_all P xs \<Longrightarrow> list_all P (take n xs)"
  by (auto simp: list_all_iff dest: in_set_takeD)

lemma hex_take: "hex (take n bs) = take (2 * n) (hex bs)"
proof (induction bs arbitrary: n)
  case Nil
  show ?case by (simp add: hex_def)
next
  case (Cons b bs)
  show ?case
  proof (cases n)
    case 0
    then show ?thesis by (simp add: hex_def)
  next
    case (Suc m)
    have "hex (take m bs) = take (2 * m) (hex bs)" by (rule Cons.IH)
    then show ?thesis using Suc by (simp add: hex_def hex_byte_def)
  qed
qed

text \<open>
  \<open>generatePublicKeyFingerprint\<close> makes one platform call, the SHA-256 digest of the
  UTF-8 bytes of \<open>JSON.stringify\<close> of the key (the members in the order the object
  has them), and returns the first 16 characters of the lowercase hexadecimal encoding
  of that digest, converted to upper case. With a digest of 32 bytes this is a string of
  16 characters, each one of \<open>0\<close> to \<open>9\<close> or \<open>A\<close> to \<open>F\<close>.
\<close>

lemma generatePublicKeyFingerprint_hex:
  "generatePublicKeyFingerprint pf key
     = ([Digest (TextEncoder_encode (JSON_stringify pf key))],
        Inr (truncated_upper_hex (digest_SHA256 pf (TextEncoder_encode (JSON_stringify pf key)))))"
proof -
  let ?digest = "digest_SHA256 pf (TextEncoder_encode (JSON_stringify pf key))"
  have "concat (map (\<lambda>b. padStart 2 48 (toString16 b)) ?digest) = hex ?digest"
    by (simp add: hex_def padded_hex)
  then show ?thesis
    by (simp add: generatePublicKeyFingerprint_def truncated_upper_hex_def io_defs Let_def)
qed

lemma truncated_upper_hex_shape:
  assumes "8 \<le> length digest"
  shows "length (truncated_upper_hex digest) = 16
    \<and> list_all upper_hex_char (truncated_upper_hex digest)"
proof -
  have len: "length (truncated_upper_hex digest) = 16"
    using assms by (simp add: truncated_upper_hex_def toUpperCase_def hex_length)
  have "list_all upper_hex_char (take 16 (toUpperCase (hex digest)))"
    by (rule list_all_take) (rule upper_hex_all)
  then have "list_all upper_hex_char (truncated_upper_hex digest)"
    by (simp add: truncated_upper_hex_def toUpperCase_take)
  then show ?thesis using len by blast
qed

text \<open>
  The fingerprint reads the first 8 bytes of the digest and nothing else of the key: two
  keys whose digests agree on those bytes have the same fingerprint. Whether the
  fingerprints of two identities differ is therefore a matter of the platform's key
  generation and of SHA-256, of which the model fixes nothing.
\<close>

lemma fingerprint_reads_eight_bytes:
  assumes "take 8 (digest_SHA256 pf (TextEncoder_encode (JSON_stringify pf key1)))
         = take 8 (digest_SHA256 pf (TextEncoder_encode (JSON_stringify pf key2)))"
  shows "snd (generatePublicKeyFingerprint pf key1) = snd (generatePublicKeyFingerprint pf key2)"
proof -
  let ?d1 = "digest_SHA256 pf (TextEncoder_encode (JSON_stringify pf key1))"
  let ?d2 = "digest_SHA256 pf (TextEncoder_encode (JSON_stringify pf key2))"
  have "take 16 (hex ?d1) = hex (take 8 ?d1)"
    using hex_take[of 8 ?d1] by simp
  also have "\<dots> = hex (take 8 ?d2)"
    by (simp only: assms)
  also have "\<dots> = take 16 (hex ?d2)"
    using hex_take[of 8 ?d2] by simp
  finally have "truncated_upper_hex ?d1 = truncated_upper_hex ?d2"
    by (simp only: truncated_upper_hex_def)
  then show ?thesis
    by (simp only: generatePublicKeyFingerprint_hex snd_conv)
qed

lemma fingerprint_demo_jwk:
  "generatePublicKeyFingerprint demo (demo_jwk 1)
     = ([Digest [107, 1]], Inr (js ''6C6C6C6C6C6C6C6C''))"
proof -
  have data: "TextEncoder_encode (JSON_stringify demo (demo_jwk 1)) = [107, 1]"
    by (simp add: demo_def demo_stringify_def demo_jwk_def codec_defs)
  have "truncated_upper_hex (digest_SHA256 demo [107, 1]) = js ''6C6C6C6C6C6C6C6C''"
    by (simp add: truncated_upper_hex_def)
       (simp add: demo_def demo_digest_def hex_def hex_byte_def hex_digit_def toUpperCase_def
          upt_rec js_def)
  then show ?thesis by (simp add: generatePublicKeyFingerprint_hex data)
qed

section \<open>C9: the session key when the peer is replaced\<close>

lemma chat_bob_state:
  "chat_bob = chat0\<lparr>peer := Some (demo_peer ''bob'' 2)\<rparr>"
  using demo_parse_bob userId_not_alice(1)
  by (simp add: chat_bob_def handleAddPeer_def handleAddPeer_try_def Let_def demo_peer_fields
      chat0_def)

lemma chat_bob_keyed_state:
  "chat_bob_keyed = chat0\<lparr>peer := Some (demo_peer ''bob'' 2), sharedKey := Some 9,
     stored_shared_aes_key := Some (js ''k'' @ [9])\<rparr>"
  by (simp add: chat_bob_keyed_def chat_bob_state deriveAndSetSharedKey_def chat0_def
      generateSharedSecret_def exportAesKey_def io_defs Let_def demo_peer_def)
     (simp add: demo_def demo_generateKey_def demo_ambient_def demo_stringify_def demo_jwk_def
      js_def)

lemma chat_carol_state:
  "chat_carol = chat0\<lparr>peer := Some (demo_peer ''carol'' 3), sharedKey := Some 9\<rparr>"
  using demo_parse_carol userId_not_alice(2)
  by (simp add: chat_carol_def chat_bob_keyed_state disconnect_def handleAddPeer_def
      handleAddPeer_try_def Let_def demo_peer_fields chat0_def)

text \<open>
  What \<open>handleAddPeer\<close> and \<open>deriveAndSetSharedKey\<close> do for the claim, on every
  platform: accepting a peer removes the stored key; the effect that follows finds no
  stored key and installs a freshly generated one; but \<open>handleAddPeer\<close> itself never
  touches the key in memory.
\<close>

lemma handleAddPeer_accept_removes_stored_key:
  "peer (handleAddPeer pf identity st) \<noteq> peer st
     \<Longrightarrow> stored_shared_aes_key (handleAddPeer pf identity st) = None"
  by (auto simp: handleAddPeer_def handleAddPeer_try_def Let_def split: sum.splits if_splits)

lemma deriveAndSetSharedKey_generates:
  assumes "stored_shared_aes_key st = None" "truthy (peer st)"
    and "generateKey_AES pf (key_seed amb) = Inr newKey" "exportKey_jwk pf newKey = Inr jwk"
  shows "deriveAndSetSharedKey pf amb st
           = ([GenerateKey AES_GCM_256, ExportKey newKey],
              st\<lparr>stored_shared_aes_key := Some (JSON_stringify pf jwk), sharedKey := Some newKey\<rparr>)"
  using assms
  by (simp add: deriveAndSetSharedKey_def generateSharedSecret_def exportAesKey_def io_defs Let_def)

lemma handleAddPeer_keeps_sharedKey:
  "sharedKey (handleAddPeer pf identity st) = sharedKey st"
  by (auto simp: handleAddPeer_def handleAddPeer_try_def Let_def split: sum.splits if_splits)

text \<open>
  Claim C9 says that once a new peer is accepted no session key of the previous peer is
  used any more. The code breaks it: \<open>handleAddPeer\<close> removes the stored key of the
  previous peer from \<open>localStorage\<close> but leaves \<open>sharedKey\<close>, the key in memory, as
  it is; the new key arrives only when \<open>deriveAndSetSharedKey\<close> completes, in a later
  task. In between, the component holds the new peer together with the previous peer's
  key, and \<open>handleSendMessage\<close> seals with it: after \<open>bob\<close> (key 9) is replaced by
  \<open>carol\<close>, a message sent before the effect completes is encrypted under key 9.
\<close>

theorem stale_session_key_after_peer_replaced:
  "peer chat_bob_keyed = Some (demo_peer ''bob'' 2)
   \<and> sharedKey chat_bob_keyed = Some 9
   \<and> peer chat_carol = Some (demo_peer ''carol'' 3)
   \<and> stored_shared_aes_key chat_carol = None
   \<and> sharedKey chat_carol = Some 9
   \<and> fst (handleSendMessage demo demo_ambient alice (chat_carol\<lparr>message := js ''hi''\<rparr>))
       = [Encrypt 9 nonce12 [104, 105], ImportKey (demo_jwk 1) RSA_PSS_SHA256 [UseSign],
          Sign 1 [113, 114, 94]]"
proof -
  have trimmed: "trim (js ''hi'') = js ''hi''"
    by (simp add: trim_def js_whitespace_def js_def)
  have seal: "fst (createEncryptedPayload demo demo_ambient (js ''hi'') alice 9)
       = [Encrypt 9 nonce12 [104, 105], ImportKey (demo_jwk 1) RSA_PSS_SHA256 [UseSign],
          Sign 1 [113, 114, 94]]"
    by (simp add: createEncryptedPayload_def encryptMessage_def importPrivateKey_def signData_def
      getRandomValues_def SIGN_ALGORITHM_saltLength_def io_defs demo_defs codec_defs
      Let_def upt_rec)
  have ne: "js ''hi'' \<noteq> []" by (simp add: js_def)
  have send: "fst (handleSendMessage demo demo_ambient alice (chat_carol\<lparr>message := js ''hi''\<rparr>))
       = fst (createEncryptedPayload demo demo_ambient (js ''hi'') alice 9)"
    using ne
    by (simp add: handleSendMessage_def chat_carol_state chat0_def trimmed demo_peer_def
        split: prod.splits sum.splits)
  show ?thesis
    using send seal by (simp add: chat_bob_keyed_state chat_carol_state chat0_def)
qed

section \<open>C10: adding oneself as a peer\<close>

text \<open>
  Claim C10. For every peer-identity payload that parses and has its four fields, and
  whose \<open>userId\<close> equals the local identity's \<open>userId\<close>, \<open>handleAddPeer\<close> sets the
  error to "You can't add yourself as a peer." and changes nothing else: the connected
  peer, the message list, the stored session key, the session key in memory and the
  input are as before.
\<close>

theorem handleAddPeer_rejects_self:
  assumes "JSON_parse pf (peerInput st) = Inr parsedPeer"
    and "peer_fields_present parsedPeer = Inr True"
    and "js_get parsedPeer (js ''userId'') = Inr (Some (JStr (userId identity)))"
  shows "handleAddPeer pf identity st = st\<lparr>error := SELF_PEER_ERROR\<rparr>
    \<and> peer (handleAddPeer pf identity st) = peer st
    \<and> messages (handleAddPeer pf identity st) = messages st
    \<and> stored_shared_aes_key (handleAddPeer pf identity st) = stored_shared_aes_key st
    \<and> sharedKey (handleAddPeer pf identity st) = sharedKey st
    \<and> error (handleAddPeer pf identity st) = SELF_PEER_ERROR"
  using assms by (simp add: handleAddPeer_def handleAddPeer_try_def Let_def)

theorem handleAddPeer_rejects_self_witness:
  "handleAddPeer demo alice (chat_bob_keyed\<lparr>peerInput := js ''alice''\<rparr>)
     = chat_bob_keyed\<lparr>peerInput := js ''alice'', error := SELF_PEER_ERROR\<rparr>"
proof -
  have a: "JSON_parse demo (peerInput (chat_bob_keyed\<lparr>peerInput := js ''alice''\<rparr>))
      = Inr (demo_peer ''alice'' 1)"
    using demo_parse_alice by simp
  have b: "peer_fields_present (demo_peer ''alice'' 1) = Inr True"
    by (simp add: demo_peer_fields)
  have c: "js_get (demo_peer ''alice'' 1) (js ''userId'') = Inr (Some (JStr (userId alice)))"
    by (simp add: demo_peer_userId alice_def)
  from handleAddPeer_rejects_self[OF a b c] show ?thesis by simp
qed

end
